theory Spec2Isabelle
  imports Complex_Main
begin

section \<open>Images and the file system as the scripts see them\<close>

text \<open>
  The four scripts call the imaging library and the operating system; none of them
  touches a pixel itself except through those calls. An image is therefore modelled by
  what the scripts read of it (\<open>img.size\<close>, \<open>img.format\<close>, \<open>img.mode\<close>) together with
  a symbolic record \<open>pix\<close> of the library calls that produced its pixels. The numeric
  pixel values computed inside the library (resampling, blur, blending) are not modelled.
\<close>

datatype colour = RGB nat nat nat | RGBA nat nat nat nat

datatype font = Helvetica nat | DefaultFont

datatype pix =
    Fill colour
  | Noise
  | Gradient colour colour colour
  | Convert string pix
  | PutAlpha nat pix
  | DrawRectangle "int \<times> int" "int \<times> int" colour pix
  | DrawText "int \<times> int" string colour font pix
  | DrawPolygon "(rat \<times> rat) list" colour pix
  | DrawRoundedRectangle "int \<times> int" "int \<times> int" nat colour colour nat pix
  | GaussianBlur nat pix
  | AlphaComposite pix pix
  | Composite pix pix pix
  | LastBand pix
  | Paste pix pix "pix option"
  | Resize "nat \<times> nat" pix

record image =
  width :: nat
  height :: nat
  format :: "string option"
  mode :: string
  pix :: pix

datatype error =
    FileNotFoundError
  | IsADirectoryError
  | FileExistsError
  | UnidentifiedImageError
  | ValueError
  | UnboundLocalError
  | KeyError
  | SystemExit nat

text \<open>
  A path string names nothing, a directory (with the names \<open>os.listdir\<close> returns for it)
  or a file (with its size in bytes and, when the imaging library can decode it, the
  image it holds). The state says what each path string resolves to; two strings that the
  operating system would resolve to the same file are two entries here. The size the
  operating system reports for a directory is not modelled (\<open>getsize\<close> gives 0): every
  script opens a path as an image before it asks for its size, and that fails on a
  directory.
\<close>

datatype node = Dir "string list" | File nat "image option"

type_synonym fs = "string \<Rightarrow> node option"

definition path_exists :: "fs \<Rightarrow> string \<Rightarrow> bool" where
  "path_exists fs p = (fs p \<noteq> None)"

definition path_isdir :: "fs \<Rightarrow> string \<Rightarrow> bool" where
  "path_isdir fs p = (case fs p of Some (Dir _) \<Rightarrow> True | _ \<Rightarrow> False)"

definition listdir :: "fs \<Rightarrow> string \<Rightarrow> string list" where
  "listdir fs p = (case fs p of Some (Dir names) \<Rightarrow> names | _ \<Rightarrow> [])"

definition image_open :: "fs \<Rightarrow> string \<Rightarrow> error + image" where
  "image_open fs p =
     (case fs p of
        None \<Rightarrow> Inl FileNotFoundError
      | Some (Dir _) \<Rightarrow> Inl IsADirectoryError
      | Some (File _ None) \<Rightarrow> Inl UnidentifiedImageError
      | Some (File _ (Some img)) \<Rightarrow> Inr img)"

definition getsize :: "fs \<Rightarrow> string \<Rightarrow> error + nat" where
  "getsize fs p =
     (case fs p of
        None \<Rightarrow> Inl FileNotFoundError
      | Some (Dir _) \<Rightarrow> Inr 0
      | Some (File n _) \<Rightarrow> Inr n)"

text \<open>\<open>os.path.join\<close> of two components, as posixpath defines it.\<close>

definition path_join :: "string \<Rightarrow> string \<Rightarrow> string" where
  "path_join a b =
     (if b \<noteq> [] \<and> hd b = CHR ''/'' then b
      else if a = [] \<or> last a = CHR ''/'' then a @ b
      else a @ ''/'' @ b)"

definition endswith :: "string \<Rightarrow> string \<Rightarrow> bool" where
  "endswith s suf =
     (length suf \<le> length s \<and> drop (length s - length suf) s = suf)"

text \<open>
  The calls into the imaging library. \<open>Image.new\<close>, \<open>resize\<close>, \<open>convert\<close> and
  \<open>split()[-1]\<close> return a fresh image that was not read from a file, so its format is
  unset; \<open>paste\<close> changes its target in place and raises when the sizes disagree.
\<close>

definition image_new :: "string \<Rightarrow> nat \<times> nat \<Rightarrow> colour \<Rightarrow> image" where
  "image_new m sz c =
     \<lparr>width = fst sz, height = snd sz, format = None, mode = m, pix = Fill c\<rparr>"

definition resize :: "image \<Rightarrow> nat \<times> nat \<Rightarrow> image" where
  "resize img sz =
     \<lparr>width = fst sz, height = snd sz, format = None, mode = mode img,
      pix = Resize sz (pix img)\<rparr>"

definition convert :: "image \<Rightarrow> string \<Rightarrow> image" where
  "convert img m = img\<lparr>format := None, mode := m, pix := Convert m (pix img)\<rparr>"

definition last_band :: "image \<Rightarrow> image" where
  "last_band img = img\<lparr>format := None, mode := ''L'', pix := LastBand (pix img)\<rparr>"

definition paste :: "image \<Rightarrow> image \<Rightarrow> image option \<Rightarrow> error + image" where
  "paste dest src msk =
     (if width src \<noteq> width dest \<or> height src \<noteq> height dest
         \<or> (case msk of None \<Rightarrow> False
             | Some m \<Rightarrow> width m \<noteq> width src \<or> height m \<noteq> height src)
      then Inl ValueError
      else Inr (dest\<lparr>pix := Paste (pix dest) (pix src) (map_option pix msk)\<rparr>))"

text \<open>
  Saving as PNG writes a file that decodes to the same image with format PNG. The byte
  count of the file is the encoder's business: \<open>enc\<close> stands for it. Saving onto a
  directory raises. The directory a file is saved into is taken to exist: every script
  creates its output directory before it saves.
\<close>

definition save_png :: "(image \<Rightarrow> nat) \<Rightarrow> fs \<Rightarrow> string \<Rightarrow> image \<Rightarrow> error + fs" where
  "save_png enc fs p img =
     (case fs p of
        Some (Dir _) \<Rightarrow> Inl IsADirectoryError
      | _ \<Rightarrow> Inr (fs(p \<mapsto> File (enc img) (Some (img\<lparr>format := Some ''PNG''\<rparr>)))))"

text \<open>
  \<open>os.makedirs(p, exist_ok=True)\<close>: nothing to do for a directory, an error for a file.
\<close>

definition makedirs :: "fs \<Rightarrow> string \<Rightarrow> error + fs" where
  "makedirs fs p =
     (case fs p of
        None \<Rightarrow> Inr (fs(p \<mapsto> Dir []))
      | Some (Dir _) \<Rightarrow> Inr fs
      | Some (File _ _) \<Rightarrow> Inl FileExistsError)"

text \<open>
  \<open>os.path.splitext\<close>: the extension starts at the last dot of the last component,
  unless only dots precede it there.
\<close>

definition rfind :: "char \<Rightarrow> string \<Rightarrow> int" where
  "rfind c s =
     (if c \<in> set s then int (length s) - 1 - int (length (takeWhile (\<lambda>x. x \<noteq> c) (rev s)))
      else - 1)"

definition splitext :: "string \<Rightarrow> string \<times> string" where
  "splitext p =
     (let sepIndex = rfind (CHR ''/'') p; dotIndex = rfind (CHR ''.'') p
      in if dotIndex > sepIndex
            \<and> (\<exists>c \<in> set (take (nat (dotIndex - sepIndex - 1)) (drop (nat (sepIndex + 1)) p)).
                  c \<noteq> CHR ''.'')
         then (take (nat dotIndex) p, drop (nat dotIndex) p)
         else (p, []))"

text \<open>
  \<open>str\<close> of a natural number, for the f-strings that build file names.
\<close>

fun str_nat :: "nat \<Rightarrow> string" where
  "str_nat n =
     (if n < 10 then [''0123456789'' ! n]
      else str_nat (n div 10) @ [''0123456789'' ! (n mod 10)])"

declare str_nat.simps [simp del]

text \<open>
  More calls into the imaging library: compositing raises unless modes and sizes agree;
  \<open>putalpha\<close>, the blur filter and the drawing calls keep size and mode and change the
  pixels only.
\<close>

definition alpha_composite :: "image \<Rightarrow> image \<Rightarrow> error + image" where
  "alpha_composite im1 im2 =
     (if mode im1 \<noteq> ''RGBA'' \<or> mode im2 \<noteq> ''RGBA''
         \<or> width im1 \<noteq> width im2 \<or> height im1 \<noteq> height im2
      then Inl ValueError
      else Inr \<lparr>width = width im1, height = height im1, format = None, mode = ''RGBA'',
                pix = AlphaComposite (pix im1) (pix im2)\<rparr>)"

definition composite :: "image \<Rightarrow> image \<Rightarrow> image \<Rightarrow> error + image" where
  "composite image1 image2 msk =
     (if mode image1 \<noteq> mode image2
         \<or> width image1 \<noteq> width image2 \<or> height image1 \<noteq> height image2
         \<or> width msk \<noteq> width image1 \<or> height msk \<noteq> height image1
      then Inl ValueError
      else Inr \<lparr>width = width image1, height = height image1, format = None,
                mode = mode image1, pix = Composite (pix image1) (pix image2) (pix msk)\<rparr>)"

definition putalpha :: "image \<Rightarrow> nat \<Rightarrow> image" where
  "putalpha img alpha = img\<lparr>mode := ''RGBA'', pix := PutAlpha alpha (pix img)\<rparr>"

definition gaussian_blur :: "image \<Rightarrow> nat \<Rightarrow> image" where
  "gaussian_blur img radius = img\<lparr>format := None, pix := GaussianBlur radius (pix img)\<rparr>"

definition draw_rectangle :: "image \<Rightarrow> int \<times> int \<Rightarrow> int \<times> int \<Rightarrow> colour \<Rightarrow> image" where
  "draw_rectangle img p0 p1 fill = img\<lparr>pix := DrawRectangle p0 p1 fill (pix img)\<rparr>"

definition draw_text :: "image \<Rightarrow> int \<times> int \<Rightarrow> string \<Rightarrow> colour \<Rightarrow> font \<Rightarrow> image" where
  "draw_text img xy text fill fnt = img\<lparr>pix := DrawText xy text fill fnt (pix img)\<rparr>"

definition draw_polygon :: "image \<Rightarrow> (rat \<times> rat) list \<Rightarrow> colour \<Rightarrow> image" where
  "draw_polygon img points fill = img\<lparr>pix := DrawPolygon points fill (pix img)\<rparr>"

definition draw_rounded_rectangle ::
  "image \<Rightarrow> int \<times> int \<Rightarrow> int \<times> int \<Rightarrow> nat \<Rightarrow> colour \<Rightarrow> colour \<Rightarrow> nat \<Rightarrow> image" where
  "draw_rounded_rectangle img p0 p1 radius fill outline w =
     img\<lparr>pix := DrawRoundedRectangle p0 p1 radius fill outline w (pix img)\<rparr>"

text \<open>
  \<open>sub in s\<close> on strings, and \<open>os.path.basename\<close>.
\<close>

fun contains :: "string \<Rightarrow> string \<Rightarrow> bool" where
  "contains [] sub = (sub = [])"
| "contains (c # cs) sub = (take (length sub) (c # cs) = sub \<or> contains cs sub)"

definition basename :: "string \<Rightarrow> string" where
  "basename p = rev (takeWhile (\<lambda>c. c \<noteq> CHR ''/'') (rev p))"

section \<open>The asset validator (\<open>validate_app_store_assets.py\<close>)\<close>

record icon_specs =
  icon_size :: "nat \<times> nat"
  icon_format :: string
  max_size_mb :: rat
  no_alpha :: bool

definition ICON_SPECS :: icon_specs where
  "ICON_SPECS =
     \<lparr>icon_size = (1024, 1024), icon_format = ''PNG'', max_size_mb = 1 / 2,
      no_alpha = True\<rparr>"

record shot_specs =
  shot_size :: "nat \<times> nat"
  shot_count :: nat

definition SCREENSHOT_SPECS :: "(string \<times> shot_specs) list" where
  "SCREENSHOT_SPECS =
     [(''iphone_se'', \<lparr>shot_size = (750, 1334), shot_count = 6\<rparr>),
      (''iphone_15'', \<lparr>shot_size = (1179, 2556), shot_count = 6\<rparr>),
      (''iphone_15_pro_max'', \<lparr>shot_size = (1290, 2796), shot_count = 6\<rparr>),
      (''ipad'', \<lparr>shot_size = (1640, 2360), shot_count = 6\<rparr>)]"

text \<open>One constructor for each line the validator prints.\<close>

datatype report =
    ValidatingIcon string
  | FileNotFound
  | WrongSize nat nat nat nat
  | WrongFormat "string option" string
  | FileTooLarge rat rat
  | AlphaWarning
  | PassWithWarnings
  | PassAllChecks nat nat "string option" rat
  | ErrorReadingImage error
  | ValidatingScreenshots string
  | DirectoryNotFound
  | DeviceHeader string
  | DeviceDirNotFound string
  | FoundTooFew nat nat
  | ShotWrongSize string nat nat nat nat
  | ShotOk string nat nat
  | ShotError string error
  | AllScreenshotsOk

text \<open>
  \<open>validate_icon\<close> returns its boolean and the lines it printed. The size in megabytes is
  the byte count divided by \<open>1024 * 1024\<close>; the division by a power of two and the
  bound \<open>0.5\<close> are exact in binary floating point, so the comparison is the rational one.
\<close>

definition validate_icon :: "fs \<Rightarrow> string \<Rightarrow> bool \<times> report list" where
  "validate_icon fs icon_path =
     (if \<not> path_exists fs icon_path then (False, [ValidatingIcon icon_path, FileNotFound])
      else
        case image_open fs icon_path of
          Inl e \<Rightarrow> (False, [ValidatingIcon icon_path, ErrorReadingImage e])
        | Inr img \<Rightarrow>
            (case getsize fs icon_path of
               Inl e \<Rightarrow> (False, [ValidatingIcon icon_path, ErrorReadingImage e])
             | Inr bytes \<Rightarrow>
                 let file_size_mb = of_nat bytes / (1024 * 1024);
                     errors =
                       (if width img \<noteq> fst (icon_size ICON_SPECS)
                           \<or> height img \<noteq> snd (icon_size ICON_SPECS)
                        then [WrongSize (width img) (height img)
                                (fst (icon_size ICON_SPECS)) (snd (icon_size ICON_SPECS))]
                        else [])
                       @ (if format img \<noteq> Some (icon_format ICON_SPECS)
                          then [WrongFormat (format img) (icon_format ICON_SPECS)]
                          else [])
                       @ (if file_size_mb > max_size_mb ICON_SPECS
                          then [FileTooLarge file_size_mb (max_size_mb ICON_SPECS)]
                          else []);
                     warnings =
                       (if mode img = ''RGBA'' \<and> no_alpha ICON_SPECS
                        then [AlphaWarning] else [])
                 in if errors \<noteq> [] then (False, ValidatingIcon icon_path # errors)
                    else if warnings \<noteq> []
                    then (True, ValidatingIcon icon_path # warnings @ [PassWithWarnings])
                    else (True,
                          [ValidatingIcon icon_path,
                           PassAllChecks (width img) (height img) (format img)
                             file_size_mb])))"

text \<open>
  The body of the inner loop of \<open>validate_screenshots\<close>: one screenshot of one device.
  It takes the flag \<open>all_passed\<close> and returns it updated, with the line it printed.
\<close>

definition check_screenshot ::
  "fs \<Rightarrow> string \<Rightarrow> shot_specs \<Rightarrow> string \<Rightarrow> bool \<Rightarrow> bool \<times> report list" where
  "check_screenshot fs device_dir specs screenshot all_passed =
     (let screenshot_path = path_join device_dir screenshot in
      case image_open fs screenshot_path of
        Inl e \<Rightarrow> (False, [ShotError screenshot e])
      | Inr img \<Rightarrow>
          (let expected_width = fst (shot_size specs);
               expected_height = snd (shot_size specs)
           in if width img \<noteq> expected_width \<or> height img \<noteq> expected_height
              then (False,
                    [ShotWrongSize screenshot (width img) (height img)
                       expected_width expected_height])
              else (all_passed, [ShotOk screenshot (width img) (height img)])))"

fun check_screenshots ::
  "fs \<Rightarrow> string \<Rightarrow> shot_specs \<Rightarrow> string list \<Rightarrow> bool \<Rightarrow> bool \<times> report list" where
  "check_screenshots fs device_dir specs [] all_passed = (all_passed, [])"
| "check_screenshots fs device_dir specs (screenshot # rest) all_passed =
     (let (p1, out1) = check_screenshot fs device_dir specs screenshot all_passed;
          (p2, out2) = check_screenshots fs device_dir specs rest p1
      in (p2, out1 @ out2))"

text \<open>The body of the outer loop: one device of the table.\<close>

definition validate_device ::
  "fs \<Rightarrow> string \<Rightarrow> string \<times> shot_specs \<Rightarrow> bool \<Rightarrow> bool \<times> report list" where
  "validate_device fs screenshots_dir entry all_passed =
     (let device = fst entry; specs = snd entry;
          device_dir = path_join screenshots_dir device
      in if \<not> path_isdir fs device_dir
         then (False, [DeviceHeader device, DeviceDirNotFound device_dir])
         else
           let screenshots = filter (\<lambda>f. endswith f ''.png'') (listdir fs device_dir);
               actual_count = length screenshots
           in if actual_count < shot_count specs
              then (False, [DeviceHeader device, FoundTooFew actual_count (shot_count specs)])
              else
                let (p, out) = check_screenshots fs device_dir specs screenshots all_passed
                in (p, DeviceHeader device # out))"

fun validate_devices ::
  "fs \<Rightarrow> string \<Rightarrow> (string \<times> shot_specs) list \<Rightarrow> bool \<Rightarrow> bool \<times> report list" where
  "validate_devices fs screenshots_dir [] all_passed = (all_passed, [])"
| "validate_devices fs screenshots_dir (entry # rest) all_passed =
     (let (p1, out1) = validate_device fs screenshots_dir entry all_passed;
          (p2, out2) = validate_devices fs screenshots_dir rest p1
      in (p2, out1 @ out2))"

definition validate_screenshots :: "fs \<Rightarrow> string \<Rightarrow> bool \<times> report list" where
  "validate_screenshots fs screenshots_dir =
     (if \<not> path_isdir fs screenshots_dir
      then (False, [ValidatingScreenshots screenshots_dir, DirectoryNotFound])
      else
        let (all_passed, out) = validate_devices fs screenshots_dir SCREENSHOT_SPECS True
        in (all_passed,
            ValidatingScreenshots screenshots_dir # out
            @ (if all_passed then [AllScreenshotsOk] else [])))"

section \<open>The icon variant generator (\<open>generate-icon-variants.py\<close>)\<close>

definition IOS_ICON_SIZES :: "(nat \<times> nat \<times> nat \<times> string) list" where
  "IOS_ICON_SIZES =
     [(1024, 1024, 1, ''app-icon-1024.png''),
      (512, 512, 1, ''app-icon-512.png''),
      (256, 256, 1, ''app-icon-256.png''),
      (128, 128, 1, ''app-icon-128.png''),
      (128, 64, 2, ''app-icon-64@2x.png''),
      (120, 60, 2, ''app-icon-60@2x.png''),
      (180, 60, 3, ''app-icon-60@3x.png''),
      (80, 40, 2, ''app-icon-40@2x.png''),
      (120, 40, 3, ''app-icon-40@3x.png''),
      (58, 29, 2, ''app-icon-29@2x.png''),
      (87, 29, 3, ''app-icon-29@3x.png''),
      (40, 20, 2, ''app-icon-20@2x.png''),
      (60, 20, 3, ''app-icon-20@3x.png''),
      (16, 16, 1, ''app-icon-16.png'')]"

definition with_suffix :: "string \<Rightarrow> string \<Rightarrow> string" where
  "with_suffix filename suffix =
     (if suffix \<noteq> [] then (let (name, ext) = splitext filename in name @ suffix @ ext)
      else filename)"

text \<open>
  The loop of \<open>generate_variants\<close> over the size table: every row is resized from the
  master and saved, and the path is appended to \<open>generated_files\<close>. A save that raises ends
  the run with the files written so far in place.
\<close>

fun write_variants ::
  "(image \<Rightarrow> nat) \<Rightarrow> fs \<Rightarrow> image \<Rightarrow> string \<Rightarrow> string
   \<Rightarrow> (nat \<times> nat \<times> nat \<times> string) list \<Rightarrow> fs \<times> (error + string list)" where
  "write_variants enc fs master output_dir suffix [] = (fs, Inr [])"
| "write_variants enc fs master output_dir suffix
     ((export_size, display_size, scale, filename) # rest) =
     (let output_path = path_join output_dir (with_suffix filename suffix);
          resized = resize master (export_size, export_size)
      in case save_png enc fs output_path resized of
           Inl e \<Rightarrow> (fs, Inl e)
         | Inr fs1 \<Rightarrow>
             (case write_variants enc fs1 master output_dir suffix rest of
                (fs2, Inl e) \<Rightarrow> (fs2, Inl e)
              | (fs2, Inr generated_files) \<Rightarrow> (fs2, Inr (output_path # generated_files))))"

text \<open>
  \<open>generate_variants\<close>. The answer typed at the prompt is \<open>response\<close> (\<open>None\<close> when
  standard input is closed, which raises inside the \<open>try\<close> block and ends in
  \<open>sys.exit(1)\<close> like a refusal); \<open>response.lower() != 'y'\<close> holds for every answer but
  \<open>y\<close> and \<open>Y\<close>. \<open>sys.exit\<close> raises \<open>SystemExit\<close>, which \<open>except Exception\<close> does not catch.
\<close>

definition generate_variants ::
  "(image \<Rightarrow> nat) \<Rightarrow> fs \<Rightarrow> string \<Rightarrow> string \<Rightarrow> string \<Rightarrow> int \<Rightarrow> string option
   \<Rightarrow> fs \<times> (error + string list)" where
  "generate_variants enc fs input_path output_dir suffix quality response =
     (if \<not> path_exists fs input_path then (fs, Inl FileNotFoundError)
      else
        case image_open fs input_path of
          Inl e \<Rightarrow> (fs, Inl (SystemExit 1))
        | Inr master \<Rightarrow>
            if (width master \<noteq> 1024 \<or> height master \<noteq> 1024)
               \<and> response \<noteq> Some ''y'' \<and> response \<noteq> Some ''Y''
            then (fs, Inl (SystemExit 1))
            else
              (case makedirs fs output_dir of
                 Inl e \<Rightarrow> (fs, Inl e)
               | Inr fs1 \<Rightarrow> write_variants enc fs1 master output_dir suffix IOS_ICON_SIZES))"

text \<open>
  \<open>validate_icons\<close>: one constructor for each line it prints, the loop body for one
  required file, the loop, and the function.
\<close>

datatype icon_report =
    MissingIcon string
  | IconWrongSize string nat nat nat
  | IconOk string nat nat nat
  | InvalidPNG string
  | AllIconsValid
  | SomeIconsFailed

definition validate_icon_file ::
  "fs \<Rightarrow> string \<Rightarrow> string \<Rightarrow> bool \<Rightarrow> bool \<times> icon_report list" where
  "validate_icon_file fs output_dir filename all_valid =
     (let filepath = path_join output_dir filename
      in if \<not> path_exists fs filepath then (False, [MissingIcon filename])
         else
           case image_open fs filepath of
             Inl e \<Rightarrow> (False, [InvalidPNG filename])
           | Inr img \<Rightarrow>
               (case find (\<lambda>f. snd (snd (snd f)) = filename) IOS_ICON_SIZES of
                  None \<Rightarrow> (False, [InvalidPNG filename])
                | Some f \<Rightarrow>
                    let expected_size = fst f
                    in if width img \<noteq> expected_size \<or> height img \<noteq> expected_size
                       then (False,
                             [IconWrongSize filename (width img) (height img) expected_size])
                       else
                         (case getsize fs filepath of
                            Inl e \<Rightarrow> (False, [InvalidPNG filename])
                          | Inr bytes \<Rightarrow>
                              (all_valid, [IconOk filename (width img) (height img) bytes]))))"

fun validate_icon_files ::
  "fs \<Rightarrow> string \<Rightarrow> string list \<Rightarrow> bool \<Rightarrow> bool \<times> icon_report list" where
  "validate_icon_files fs output_dir [] all_valid = (all_valid, [])"
| "validate_icon_files fs output_dir (filename # rest) all_valid =
     (let (v1, out1) = validate_icon_file fs output_dir filename all_valid;
          (v2, out2) = validate_icon_files fs output_dir rest v1
      in (v2, out1 @ out2))"

definition validate_icons :: "fs \<Rightarrow> string \<Rightarrow> bool \<times> icon_report list" where
  "validate_icons fs output_dir =
     (let required_files = map (\<lambda>f. snd (snd (snd f))) IOS_ICON_SIZES;
          (all_valid, out) = validate_icon_files fs output_dir required_files True
      in (all_valid, out @ [if all_valid then AllIconsValid else SomeIconsFailed]))"

text \<open>
  \<open>generate_contents_json\<close>. An entry is built by the first of three branches that
  applies; every row of the size table meets one of them (\<open>manifest_entry_total\<close> below), so
  the variable \<open>entry\<close> is bound afresh in every iteration that reaches it.
\<close>

datatype json = JString string | JNumber int | JArray "json list" | JObject "(string \<times> json) list"

definition manifest_entry :: "nat \<Rightarrow> nat \<Rightarrow> nat \<Rightarrow> string \<Rightarrow> (string \<times> json) list option" where
  "manifest_entry export_size display_size scale filename =
     (if export_size = 1024
      then Some [(''filename'', JString filename), (''idiom'', JString ''universal''),
                 (''platform'', JString ''ios''), (''size'', JString ''1024x1024'')]
      else if display_size \<in> set [60, 40, 29, 20]
      then Some [(''filename'', JString filename),
                 (''idiom'',
                  JString (if export_size \<in> set [120, 180, 58, 87, 40, 60]
                           then ''iphone'' else ''ipad'')),
                 (''scale'', JString (str_nat scale @ ''x'')),
                 (''size'', JString (str_nat display_size @ ''x'' @ str_nat display_size))]
      else if display_size \<in> set [16, 32, 64, 128, 256, 512]
      then Some [(''filename'', JString filename), (''idiom'', JString ''mac''),
                 (''scale'', JString (if scale > 1 then str_nat scale @ ''x'' else ''1x'')),
                 (''size'', JString (str_nat display_size @ ''x'' @ str_nat display_size))]
      else None)"

definition dict_update :: "(string \<times> json) list \<Rightarrow> (string \<times> json) list \<Rightarrow> (string \<times> json) list" where
  "dict_update d u =
     map (\<lambda>(k, v). (k, case map_of u k of Some v' \<Rightarrow> v' | None \<Rightarrow> v)) d
     @ filter (\<lambda>(k, v). k \<notin> fst ` set d) u"

fun manifest_rows ::
  "fs \<Rightarrow> string \<Rightarrow> string \<Rightarrow> (nat \<times> nat \<times> nat \<times> string) list \<Rightarrow> error + json list" where
  "manifest_rows fs output_dir suffix [] = Inr []"
| "manifest_rows fs output_dir suffix ((export_size, display_size, scale, filename) # rest) =
     (let appearance =
            (if suffix = ''-dark''
             then [(''appearances'',
                    JArray [JObject [(''appearance'', JString ''luminosity''),
                                     (''value'', JString ''dark'')]])]
             else []);
          filename1 = with_suffix filename suffix;
          filepath = path_join output_dir filename1
      in if \<not> path_exists fs filepath then manifest_rows fs output_dir suffix rest
         else
           case manifest_entry export_size display_size scale filename1 of
             None \<Rightarrow> Inl UnboundLocalError
           | Some entry \<Rightarrow>
               (case manifest_rows fs output_dir suffix rest of
                  Inl e \<Rightarrow> Inl e
                | Inr images \<Rightarrow>
                    Inr (JObject (if suffix = ''-dark'' then dict_update entry appearance
                                  else entry) # images)))"

fun manifest_images :: "fs \<Rightarrow> string \<Rightarrow> string list \<Rightarrow> error + json list" where
  "manifest_images fs output_dir [] = Inr []"
| "manifest_images fs output_dir (suffix # rest) =
     (case manifest_rows fs output_dir suffix IOS_ICON_SIZES of
        Inl e \<Rightarrow> Inl e
      | Inr images1 \<Rightarrow>
          (case manifest_images fs output_dir rest of
             Inl e \<Rightarrow> Inl e
           | Inr images2 \<Rightarrow> Inr (images1 @ images2)))"

definition generate_contents_json ::
  "(json \<Rightarrow> nat) \<Rightarrow> fs \<Rightarrow> string \<Rightarrow> string list \<Rightarrow> fs \<times> (error + string)" where
  "generate_contents_json json_bytes fs output_dir suffixes =
     (case manifest_images fs output_dir suffixes of
        Inl e \<Rightarrow> (fs, Inl e)
      | Inr images \<Rightarrow>
          let contents =
                JObject [(''images'', JArray images),
                         (''info'', JObject [(''author'', JString ''xcode''),
                                             (''version'', JNumber 1)])];
              output_path = path_join output_dir ''Contents.json''
          in case fs output_path of
               Some (Dir _) \<Rightarrow> (fs, Inl IsADirectoryError)
             | _ \<Rightarrow> (fs(output_path \<mapsto> File (json_bytes contents) None), Inr output_path))"

text \<open>
  \<open>main\<close> of the generator, from the parsed arguments to the exit status of the process,
  with the final file system and the lines \<open>validate_icons\<close> printed. An exception that
  leaves \<open>main\<close> ends the process with status 1.
\<close>

record args =
  arg_input :: "string option"
  arg_output :: string
  arg_suffix :: string
  arg_quality :: int
  arg_update_contents_json :: bool
  arg_validate :: bool

definition icon_variants_main ::
  "(image \<Rightarrow> nat) \<Rightarrow> (json \<Rightarrow> nat) \<Rightarrow> fs \<Rightarrow> args \<Rightarrow> string option
   \<Rightarrow> fs \<times> nat \<times> icon_report list" where
  "icon_variants_main enc json_bytes fs args response =
     (if arg_update_contents_json args
      then
        if \<not> path_isdir fs (arg_output args) then (fs, 1, [])
        else
          (case generate_contents_json json_bytes fs (arg_output args) [[], ''-dark''] of
             (fs1, Inl e) \<Rightarrow> (fs1, 1, [])
           | (fs1, Inr p) \<Rightarrow> (fs1, 0, []))
      else
        case arg_input args of
          None \<Rightarrow> (fs, 1, [])
        | Some input_path \<Rightarrow>
            if input_path = [] then (fs, 1, [])
            else
              (case generate_variants enc fs input_path (arg_output args) (arg_suffix args)
                      (arg_quality args) response of
                 (fs1, Inl (SystemExit n)) \<Rightarrow> (fs1, n, [])
               | (fs1, Inl e) \<Rightarrow> (fs1, 1, [])
               | (fs1, Inr generated_files) \<Rightarrow>
                   (fs1, 0,
                    if arg_validate args then snd (validate_icons fs1 (arg_output args))
                    else [])))"

section \<open>The earlier generator (\<open>.worktrees/007-app-store-assets-creation/scripts/generate-icon-variants.py\<close>)\<close>

definition ICON_SIZES :: "nat list" where
  "ICON_SIZES = [16, 29, 32, 40, 58, 60, 76, 80, 87, 120, 152, 167, 180, 1024]"

text \<open>
  The master is flattened onto white when it has an alpha channel or a palette, and
  converted to RGB when it is in any other mode but RGB.
\<close>

definition flatten_master :: "image \<Rightarrow> error + image" where
  "flatten_master master =
     (if mode master \<in> set [''RGBA'', ''LA'', ''P'']
      then
        let background = image_new ''RGB'' (width master, height master) (RGB 255 255 255);
            master1 = (if mode master = ''P'' then convert master ''RGBA'' else master)
        in paste background master1
             (if mode master1 = ''RGBA'' then Some (last_band master1) else None)
      else if mode master \<noteq> ''RGB'' then Inr (convert master ''RGB'')
      else Inr master)"

definition icon_file_name :: "nat \<Rightarrow> string" where
  "icon_file_name sz =
     (if sz = 1024 then ''AppIcon-1024x1024.png''
      else ''AppIcon-'' @ str_nat sz @ ''x'' @ str_nat sz @ ''.png'')"

text \<open>
  The loop over the sizes: size 1024 saves the master itself, every other size a resized
  copy. The whole loop sits in a \<open>try\<close> block whose handler exits with status 1.
\<close>

fun save_icon_sizes ::
  "(image \<Rightarrow> nat) \<Rightarrow> fs \<Rightarrow> image \<Rightarrow> string \<Rightarrow> nat list \<Rightarrow> nat \<Rightarrow> fs \<times> (error + nat)" where
  "save_icon_sizes enc fs master output_path [] generated_count = (fs, Inr generated_count)"
| "save_icon_sizes enc fs master output_path (sz # rest) generated_count =
     (let output_file = path_join output_path (icon_file_name sz);
          saved = (if sz = 1024 then save_png enc fs output_file master
                   else save_png enc fs output_file (resize master (sz, sz)))
      in case saved of
           Inl e \<Rightarrow> (fs, Inl e)
         | Inr fs1 \<Rightarrow> save_icon_sizes enc fs1 master output_path rest (generated_count + 1))"

definition generate_icon_variants ::
  "(image \<Rightarrow> nat) \<Rightarrow> fs \<Rightarrow> string \<Rightarrow> string \<Rightarrow> string option \<Rightarrow> fs \<times> (error + nat)" where
  "generate_icon_variants enc fs master_path output_dir response =
     (if \<not> path_exists fs master_path then (fs, Inl (SystemExit 1))
      else
        case makedirs fs output_dir of
          Inl e \<Rightarrow> (fs, Inl e)
        | Inr fs1 \<Rightarrow>
            (case image_open fs1 master_path of
               Inl e \<Rightarrow> (fs1, Inl (SystemExit 1))
             | Inr master \<Rightarrow>
                 if (width master, height master) \<noteq> (1024, 1024)
                    \<and> response \<noteq> Some ''y'' \<and> response \<noteq> Some ''Y''
                 then (fs1, Inl (SystemExit 1))
                 else
                   (case flatten_master master of
                      Inl e \<Rightarrow> (fs1, Inl (SystemExit 1))
                    | Inr master1 \<Rightarrow>
                        (case save_icon_sizes enc fs1 master1 output_dir ICON_SIZES 0 of
                           (fs2, Inl e) \<Rightarrow> (fs2, Inl (SystemExit 1))
                         | (fs2, Inr generated_count) \<Rightarrow> (fs2, Inr generated_count)))))"

section \<open>The screenshot post-processor (\<open>process_screenshots.py\<close>)\<close>

record device_specs =
  dev_name :: string
  screen_size :: "nat \<times> nat"
  export_size :: "nat \<times> nat"
  dev_scale :: nat

definition DEVICE_SPECS :: "(string \<times> device_specs) list" where
  "DEVICE_SPECS =
     [(''iphone_se'',
       \<lparr>dev_name = ''iPhone SE'', screen_size = (375, 667), export_size = (750, 1334),
        dev_scale = 2\<rparr>),
      (''iphone_15'',
       \<lparr>dev_name = ''iPhone 15'', screen_size = (393, 852), export_size = (1179, 2556),
        dev_scale = 3\<rparr>),
      (''iphone_15_pro_max'',
       \<lparr>dev_name = ''iPhone 15 Pro Max'', screen_size = (430, 932),
        export_size = (1290, 2796), dev_scale = 3\<rparr>),
      (''ipad'',
       \<lparr>dev_name = ''iPad (10th Gen)'', screen_size = (820, 1180),
        export_size = (1640, 2360), dev_scale = 2\<rparr>)]"

definition CAPTIONS :: "(nat \<times> string) list" where
  "CAPTIONS =
     [(1, ''Tired of forgetting what you learn?''),
      (2, ''90% retention with FSRS v5 algorithm''),
      (3, ''Beautiful Liquid Glass interface''),
      (4, ''Flashcards, Quiz, and Writing modes''),
      (5, ''Smart scheduling optimizes study time''),
      (6, ''Start learning vocabulary today'')]"

text \<open>
  The dictionary of output titles that \<open>batch_process\<close> builds in every iteration.
\<close>

definition TITLES :: "(nat \<times> string) list" where
  "TITLES =
     [(1, ''FORGET_LESS''), (2, ''FSRS_V5''), (3, ''LIQUID_GLASS''), (4, ''STUDY_MODES''),
      (5, ''SMART_SCHEDULING''), (6, ''START_LEARNING'')]"

text \<open>
  \<open>add_caption\<close>. Whether the system font can be loaded is \<open>helvetica\<close> (the bare
  \<open>except\<close> falls back to the default font), and \<open>textbbox\<close> stands for the library's
  text measurement. \<open>int(height * 0.25)\<close> is \<open>height div 4\<close> exactly; \<open>int(caption_height * 0.3)\<close>
  is taken as \<open>3 * caption_height div 10\<close> and only positions the text.
\<close>

definition add_caption ::
  "bool \<Rightarrow> (font \<Rightarrow> string \<Rightarrow> int \<times> int \<times> int \<times> int) \<Rightarrow> image \<Rightarrow> string \<Rightarrow> string
   \<Rightarrow> error + image" where
  "add_caption helvetica textbbox img text device_name =
     (let w = width img; h = height img;
          overlay = image_new ''RGBA'' (w, h) (RGBA 0 0 0 0);
          caption_height = h div 4;
          caption_y = h - caption_height;
          overlay1 = draw_rectangle overlay (0, int caption_y) (int w, int h) (RGBA 0 0 0 153);
          font_size = (if contains device_name ''iPad'' then 56 else 40);
          fnt = (if helvetica then Helvetica font_size else DefaultFont);
          bbox = textbbox fnt text;
          text_width = fst (snd (snd bbox)) - fst bbox;
          text_x = (int w - text_width) div 2;
          text_y = int caption_y + int ((3 * caption_height) div 10);
          overlay2 = draw_text overlay1 (text_x, text_y) text (RGBA 255 255 255 255) fnt
      in case alpha_composite (convert img ''RGBA'') overlay2 of
           Inl e \<Rightarrow> Inl e
         | Inr result \<Rightarrow> Inr (convert result ''RGB''))"

text \<open>
  \<open>process_screenshot\<close>: open, caption when a non-empty caption is given, save. Nothing
  in it is caught, so an error ends the batch. The lines printed are returned.
\<close>

datatype batch_line = ScreenshotNotFound nat string | Processed string

definition process_screenshot ::
  "bool \<Rightarrow> (font \<Rightarrow> string \<Rightarrow> int \<times> int \<times> int \<times> int) \<Rightarrow> (image \<Rightarrow> nat) \<Rightarrow> fs
   \<Rightarrow> string \<Rightarrow> string \<Rightarrow> string option \<Rightarrow> string \<Rightarrow> fs \<times> (error + batch_line list)" where
  "process_screenshot helvetica textbbox enc fs input_path output_path caption_text device_name =
     (case image_open fs input_path of
        Inl e \<Rightarrow> (fs, Inl e)
      | Inr img \<Rightarrow>
          (case (if caption_text \<noteq> None \<and> caption_text \<noteq> Some []
                 then add_caption helvetica textbbox img (the caption_text) device_name
                 else Inr img) of
             Inl e \<Rightarrow> (fs, Inl e)
           | Inr img1 \<Rightarrow>
               (case save_png enc fs output_path img1 of
                  Inl e \<Rightarrow> (fs, Inl e)
                | Inr fs1 \<Rightarrow> (fs1, Inr [Processed (basename output_path)]))))"

text \<open>
  The accepted input names for screenshot \<open>i\<close>, the first of them that exists, and the
  output file name.
\<close>

definition input_files :: "nat \<Rightarrow> string list" where
  "input_files i =
     [str_nat i @ ''.png'', str_nat i @ ''_raw.png'', ''screenshot_'' @ str_nat i @ ''.png'']"

definition find_input :: "fs \<Rightarrow> string \<Rightarrow> nat \<Rightarrow> string option" where
  "find_input fs input_dir i =
     find (path_exists fs) (map (path_join input_dir) (input_files i))"

definition output_filename :: "nat \<times> nat \<Rightarrow> nat \<Rightarrow> string \<Rightarrow> string" where
  "output_filename export i title =
     str_nat i @ ''_'' @ title @ ''_'' @ str_nat (fst export) @ ''x'' @ str_nat (snd export)
     @ ''.png''"

text \<open>
  The loop of \<open>batch_process\<close> over \<open>range(1, 7)\<close> and the function itself.
\<close>

fun batch_loop ::
  "bool \<Rightarrow> (font \<Rightarrow> string \<Rightarrow> int \<times> int \<times> int \<times> int) \<Rightarrow> (image \<Rightarrow> nat) \<Rightarrow> fs
   \<Rightarrow> string \<Rightarrow> string \<Rightarrow> device_specs \<Rightarrow> bool \<Rightarrow> nat list
   \<Rightarrow> fs \<times> (error + batch_line list)" where
  "batch_loop helvetica textbbox enc fs input_dir output_dir specs add_captions [] =
     (fs, Inr [])"
| "batch_loop helvetica textbbox enc fs input_dir output_dir specs add_captions (i # rest) =
     (case find_input fs input_dir i of
        None \<Rightarrow>
          (case batch_loop helvetica textbbox enc fs input_dir output_dir specs add_captions
                  rest of
             (fs1, Inl e) \<Rightarrow> (fs1, Inl e)
           | (fs1, Inr out) \<Rightarrow> (fs1, Inr (ScreenshotNotFound i input_dir # out)))
      | Some input_path \<Rightarrow>
          (case map_of TITLES i of
             None \<Rightarrow> (fs, Inl KeyError)
           | Some title \<Rightarrow>
               let output_path =
                     path_join output_dir (output_filename (export_size specs) i title)
               in case (if add_captions then map_option Some (map_of CAPTIONS i)
                        else Some None) of
                    None \<Rightarrow> (fs, Inl KeyError)
                  | Some caption_text \<Rightarrow>
                      (case process_screenshot helvetica textbbox enc fs input_path
                              output_path caption_text (dev_name specs) of
                         (fs1, Inl e) \<Rightarrow> (fs1, Inl e)
                       | (fs1, Inr out1) \<Rightarrow>
                           (case batch_loop helvetica textbbox enc fs1 input_dir output_dir
                                   specs add_captions rest of
                              (fs2, Inl e) \<Rightarrow> (fs2, Inl e)
                            | (fs2, Inr out2) \<Rightarrow> (fs2, Inr (out1 @ out2))))))"

definition batch_process ::
  "bool \<Rightarrow> (font \<Rightarrow> string \<Rightarrow> int \<times> int \<times> int \<times> int) \<Rightarrow> (image \<Rightarrow> nat) \<Rightarrow> fs
   \<Rightarrow> string \<Rightarrow> string \<Rightarrow> string \<Rightarrow> bool \<Rightarrow> bool \<Rightarrow> fs \<times> (error + batch_line list)" where
  "batch_process helvetica textbbox enc fs input_dir output_dir device_type add_captions
     add_frames =
     (case map_of DEVICE_SPECS device_type of
        None \<Rightarrow> (fs, Inl (SystemExit 1))
      | Some specs \<Rightarrow>
          (case makedirs fs output_dir of
             Inl e \<Rightarrow> (fs, Inl e)
           | Inr fs1 \<Rightarrow>
               batch_loop helvetica textbbox enc fs1 input_dir output_dir specs add_captions
                 [1, 2, 3, 4, 5, 6]))"

section \<open>The procedural icon composer (\<open>create-glass-morphism-icon.py\<close>)\<close>

text \<open>
  The random array of \<open>create_noise_texture\<close> and the array that
  \<open>create_gradient_color\<close> fills pixel by pixel in floating point are kept as symbolic
  pixel sources; what is modelled of both functions is the size and mode of the image they
  return. \<open>int(255 * opacity / 100)\<close> is \<open>255 * opacity div 100\<close> exactly.
\<close>

definition create_noise_texture :: "nat \<Rightarrow> nat \<Rightarrow> nat \<Rightarrow> image" where
  "create_noise_texture w h opacity =
     (let noise_img = \<lparr>width = w, height = h, format = None, mode = ''L'', pix = Noise\<rparr>;
          noise_rgba = convert noise_img ''RGBA'';
          alpha = (255 * opacity) div 100
      in putalpha noise_rgba alpha)"

definition create_gradient_color :: "nat \<times> nat \<Rightarrow> colour \<Rightarrow> colour \<Rightarrow> colour \<Rightarrow> image" where
  "create_gradient_color sz color_start color_middle color_end =
     \<lparr>width = fst sz, height = snd sz, format = None, mode = ''RGB'',
      pix = Gradient color_start color_middle color_end\<rparr>"

text \<open>
  \<open>create_fluid_L\<close> and \<open>create_glass_card\<close>. The products with \<open>0.7\<close>, \<open>0.1\<close>,
  \<open>0.80\<close> and \<open>0.225\<close> are taken in the rationals; they give coordinates of the drawn
  shapes only.
\<close>

definition create_fluid_L :: "nat \<times> nat \<Rightarrow> image \<Rightarrow> error + image" where
  "create_fluid_L sz gradient_img =
     (let w = fst sz; h = snd sz;
          l_height = h div 2;
          l_width = nat \<lfloor>rat_of_nat l_height * (7 / 10)\<rfloor>;
          stroke_thick = 120; stroke_thin = 60;
          center_x = int (w div 2); center_y = int (h div 2);
          left = center_x - int (l_width div 2);
          top = center_y - int (l_height div 2);
          right = left + int l_width;
          bottom = top + int l_height;
          crossbar_y = top + int (l_height div 4);
          points =
            [(of_int (left + stroke_thick div 3), of_int top),
             (of_int (left + stroke_thick div 2), of_int (top + 50)),
             (of_int (left + stroke_thick), of_int top + rat_of_nat l_height * (1 / 10)),
             (of_int (left + stroke_thick), of_int (bottom - 20)),
             (of_int (left + stroke_thin + 20), of_int bottom),
             (of_int (left + stroke_thin), of_int bottom),
             (of_int (left + stroke_thin), of_int (crossbar_y + stroke_thin)),
             (of_int left + rat_of_nat l_width * (7 / 10), of_int (crossbar_y + stroke_thin)),
             (of_int left + rat_of_nat l_width * (7 / 10), of_int crossbar_y),
             (of_int (left + stroke_thick div 2), of_int (top + 50)),
             (of_int (left + stroke_thick div 3), of_int top)];
          l_mask = draw_polygon (image_new ''RGBA'' (w, h) (RGBA 0 0 0 0)) points
                     (RGBA 255 255 255 255)
      in case alpha_composite (image_new ''RGBA'' (w, h) (RGBA 0 0 0 0))
                (convert gradient_img ''RGBA'') of
           Inl e \<Rightarrow> Inl e
         | Inr l_final \<Rightarrow>
             composite l_final (image_new ''RGBA'' (w, h) (RGBA 0 0 0 0)) (last_band l_mask))"

definition create_glass_card :: "nat \<times> nat \<Rightarrow> nat \<Rightarrow> nat \<Rightarrow> nat \<Rightarrow> image" where
  "create_glass_card sz blur_radius opacity border_opacity =
     (let w = fst sz; h = snd sz;
          card_size = nat \<lfloor>rat_of_nat (min w h) * (8 / 10)\<rfloor>;
          corner_radius = nat \<lfloor>rat_of_nat card_size * (225 / 1000)\<rfloor>;
          card = image_new ''RGBA'' (w, h) (RGBA 0 0 0 0);
          card_left = (int w - int card_size) div 2;
          card_top = (int h - int card_size) div 2;
          card_right = card_left + int card_size;
          card_bottom = card_top + int card_size;
          alpha = (255 * opacity) div 100;
          card1 = draw_rounded_rectangle card (card_left, card_top) (card_right, card_bottom)
                    corner_radius (RGBA 255 255 255 alpha)
                    (RGBA 255 255 255 ((255 * border_opacity) div 100)) 2
      in gaussian_blur card1 blur_radius)"

text \<open>
  \<open>create_app_icon\<close>, in two parts: \<open>icon_layers\<close> is the value of the variable
  \<open>icon\<close> after the three \<open>alpha_composite\<close> calls, and \<open>create_app_icon\<close> flattens
  it onto the background colour, saves it and returns it. The parameter \<open>mode\<close> of the
  source is \<open>appearance\<close> here.
\<close>

definition background_colour :: "string \<Rightarrow> colour" where
  "background_colour appearance =
     (if appearance = ''light'' then RGB 255 255 255 else RGB 0 0 0)"

definition icon_layers :: "string \<Rightarrow> error + image" where
  "icon_layers appearance =
     (let sz = (1024, 1024);
          bg_color = background_colour appearance;
          glass_opacity = (if appearance = ''light'' then 25 else 30);
          border_opacity = (if appearance = ''light'' then 40 else 50);
          background = image_new ''RGB'' sz bg_color;
          background_rgba = convert background ''RGBA'';
          glass_card = create_glass_card sz 40 glass_opacity border_opacity;
          gradient = create_gradient_color sz (RGB 99 102 241) (RGB 236 72 153)
                       (RGB 139 92 246)
      in case create_fluid_L sz gradient of
           Inl e \<Rightarrow> Inl e
         | Inr fluid_l \<Rightarrow>
             let noise = create_noise_texture (fst sz) (snd sz) 5;
                 icon = background_rgba
             in case alpha_composite icon glass_card of
                  Inl e \<Rightarrow> Inl e
                | Inr icon1 \<Rightarrow>
                    (case alpha_composite icon1 fluid_l of
                       Inl e \<Rightarrow> Inl e
                     | Inr icon2 \<Rightarrow> alpha_composite icon2 noise))"

definition create_app_icon ::
  "(image \<Rightarrow> nat) \<Rightarrow> fs \<Rightarrow> string \<Rightarrow> string \<Rightarrow> fs \<times> (error + image)" where
  "create_app_icon enc fs appearance output_path =
     (case icon_layers appearance of
        Inl e \<Rightarrow> (fs, Inl e)
      | Inr icon \<Rightarrow>
          (case paste (image_new ''RGB'' (1024, 1024) (background_colour appearance)) icon
                  (Some (last_band icon)) of
             Inl e \<Rightarrow> (fs, Inl e)
           | Inr icon_rgb \<Rightarrow>
               (case save_png enc fs output_path icon_rgb of
                  Inl e \<Rightarrow> (fs, Inl e)
                | Inr fs1 \<Rightarrow> (fs1, Inr icon_rgb))))"

section \<open>Notions used to state the validator's properties\<close>

text \<open>
  The file a report line is about, when it is the status line of one screenshot.
\<close>

fun report_file :: "report \<Rightarrow> string option" where
  "report_file (ShotWrongSize n _ _ _ _) = Some n"
| "report_file (ShotOk n _ _) = Some n"
| "report_file (ShotError n _) = Some n"
| "report_file _ = None"

text \<open>
  What the inner loop prints for one screenshot, and whether the screenshot leaves the
  flag alone: both read off the body of \<open>check_screenshot\<close> and proved equal to it below
  (\<open>check_screenshot_eq\<close>).
\<close>

definition shot_line :: "fs \<Rightarrow> string \<Rightarrow> shot_specs \<Rightarrow> string \<Rightarrow> report" where
  "shot_line fs device_dir specs f =
     (case image_open fs (path_join device_dir f) of
        Inl e \<Rightarrow> ShotError f e
      | Inr img \<Rightarrow>
          if width img = fst (shot_size specs) \<and> height img = snd (shot_size specs)
          then ShotOk f (width img) (height img)
          else ShotWrongSize f (width img) (height img)
                 (fst (shot_size specs)) (snd (shot_size specs)))"

definition shot_ok :: "fs \<Rightarrow> string \<Rightarrow> shot_specs \<Rightarrow> string \<Rightarrow> bool" where
  "shot_ok fs device_dir specs f =
     (case image_open fs (path_join device_dir f) of
        Inl e \<Rightarrow> False
      | Inr img \<Rightarrow> width img = fst (shot_size specs) \<and> height img = snd (shot_size specs))"

text \<open>
  The names \<open>validate_screenshots\<close> keeps of a device directory; the verdict and the
  lines of one device of the table (proved equal to \<open>validate_device\<close> in
  \<open>validate_device_eq\<close>).
\<close>

definition pngs :: "fs \<Rightarrow> string \<Rightarrow> string list" where
  "pngs fs device_dir = filter (\<lambda>f. endswith f ''.png'') (listdir fs device_dir)"

definition device_ok :: "fs \<Rightarrow> string \<Rightarrow> string \<times> shot_specs \<Rightarrow> bool" where
  "device_ok fs sd entry =
     (let dd = path_join sd (fst entry) in
      path_isdir fs dd \<and> shot_count (snd entry) \<le> length (pngs fs dd)
      \<and> list_all (shot_ok fs dd (snd entry)) (pngs fs dd))"

definition device_lines :: "fs \<Rightarrow> string \<Rightarrow> string \<times> shot_specs \<Rightarrow> report list" where
  "device_lines fs sd entry =
     (let dd = path_join sd (fst entry) in
      if \<not> path_isdir fs dd then [DeviceHeader (fst entry), DeviceDirNotFound dd]
      else if length (pngs fs dd) < shot_count (snd entry)
      then [DeviceHeader (fst entry), FoundTooFew (length (pngs fs dd)) (shot_count (snd entry))]
      else DeviceHeader (fst entry) # map (shot_line fs dd (snd entry)) (pngs fs dd))"

text \<open>
  For a first component that is empty or ends in a slash \<open>path_join\<close> appends the second
  component as it is, otherwise it puts a slash between them.
\<close>

definition dir_prefix :: "string \<Rightarrow> string" where
  "dir_prefix a = (if a = [] \<or> last a = CHR ''/'' then a else a @ ''/'')"

definition slash_free_name :: "string \<Rightarrow> bool" where
  "slash_free_name d = (d \<noteq> [] \<and> CHR ''/'' \<notin> set d)"

text \<open>
  Adding a file to a directory and removing one from it: the directory's listing and the
  file's own path change together. \<open>add_file\<close> puts the new name at position \<open>k\<close> of
  the listing, since \<open>os.listdir\<close> promises no order.
\<close>

definition add_file :: "fs \<Rightarrow> string \<Rightarrow> nat \<Rightarrow> string \<Rightarrow> nat \<Rightarrow> image \<Rightarrow> fs" where
  "add_file fs d k name bytes img =
     (case fs d of
        Some (Dir names) \<Rightarrow>
          fs(d \<mapsto> Dir (take k names @ name # drop k names),
             path_join d name \<mapsto> File bytes (Some img))
      | _ \<Rightarrow> fs)"

definition remove_file :: "fs \<Rightarrow> string \<Rightarrow> string \<Rightarrow> fs" where
  "remove_file fs d name =
     (case fs d of
        Some (Dir names) \<Rightarrow> (fs(d \<mapsto> Dir (removeAll name names)))(path_join d name := None)
      | _ \<Rightarrow> fs)"

text \<open>
  Names returned by \<open>os.listdir\<close> contain no slash; this says so for the device
  directories of the table.
\<close>

definition listing_ok :: "fs \<Rightarrow> string \<Rightarrow> bool" where
  "listing_ok fs sd =
     (\<forall>e \<in> set SCREENSHOT_SPECS. \<forall>f \<in> set (listdir fs (path_join sd (fst e))).
        CHR ''/'' \<notin> set f)"

text \<open>
  The paths the two generators write to, the node a save leaves behind, and the pixel
  size of the image stored at a path.
\<close>

definition variant_path :: "string \<Rightarrow> string \<Rightarrow> nat \<times> nat \<times> nat \<times> string \<Rightarrow> string" where
  "variant_path output_dir suffix e =
     path_join output_dir (with_suffix (snd (snd (snd e))) suffix)"

definition icon_file_path :: "string \<Rightarrow> nat \<Rightarrow> string" where
  "icon_file_path output_dir sz = path_join output_dir (icon_file_name sz)"

definition written :: "(image \<Rightarrow> nat) \<Rightarrow> image \<Rightarrow> node" where
  "written enc img = File (enc img) (Some (img\<lparr>format := Some ''PNG''\<rparr>))"

definition icon_stems :: "string list" where
  "icon_stems =
     [''app-icon-1024'', ''app-icon-512'', ''app-icon-256'', ''app-icon-128'',
      ''app-icon-64@2x'', ''app-icon-60@2x'', ''app-icon-60@3x'', ''app-icon-40@2x'',
      ''app-icon-40@3x'', ''app-icon-29@2x'', ''app-icon-29@3x'', ''app-icon-20@2x'',
      ''app-icon-20@3x'', ''app-icon-16'']"

definition path_isfile :: "fs \<Rightarrow> string \<Rightarrow> bool" where
  "path_isfile fs p = (case fs p of Some (File _ _) \<Rightarrow> True | _ \<Rightarrow> False)"

definition image_size_at :: "fs \<Rightarrow> string \<Rightarrow> (nat \<times> nat) option" where
  "image_size_at fs p =
     (case fs p of Some (File _ (Some img)) \<Rightarrow> Some (width img, height img) | _ \<Rightarrow> None)"

text \<open>
  The path \<open>batch_process\<close> writes screenshot \<open>i\<close> to.
\<close>

definition shot_output_path :: "string \<Rightarrow> device_specs \<Rightarrow> nat \<Rightarrow> string" where
  "shot_output_path output_dir specs i =
     path_join output_dir (output_filename (export_size specs) i (the (map_of TITLES i)))"

subsection \<open>Example states\<close>

definition icon_ok :: image where
  "icon_ok = \<lparr>width = 1024, height = 1024, format = Some ''PNG'', mode = ''RGB'',
              pix = Fill (RGB 255 255 255)\<rparr>"

definition shot_se :: image where
  "shot_se = \<lparr>width = 750, height = 1334, format = Some ''PNG'', mode = ''RGB'',
            pix = Fill (RGB 0 0 0)\<rparr>"

definition shot_15 :: image where
  "shot_15 = shot_se\<lparr>width := 1179, height := 2556\<rparr>"
definition shot_max :: image where
  "shot_max = shot_se\<lparr>width := 1290, height := 2796\<rparr>"
definition shot_ipad :: image where
  "shot_ipad = shot_se\<lparr>width := 1640, height := 2360\<rparr>"

definition six :: "string list" where
  "six = [''1.png'', ''2.png'', ''3.png'', ''4.png'', ''5.png'', ''6.png'']"

definition device_files :: "string \<Rightarrow> image \<Rightarrow> string list \<Rightarrow> (string \<times> node) list" where
  "device_files d img names =
     (d, Dir names) # map (\<lambda>n. (d @ ''/'' @ n, File 1000 (Some img))) names"

text \<open>
  A screenshot tree in which the directory of the first device holds four of the six
  required files and the other device directories are missing.
\<close>

definition fs_short :: fs where
  "fs_short = map_of
     [(''shots'', Dir [''iphone_se'']),
      (''shots/iphone_se'', Dir [''1.png'', ''2.png'', ''3.png'', ''4.png'']),
      (''shots/iphone_se/1.png'', File 1000 (Some shot_se)),
      (''shots/iphone_se/2.png'', File 1000 (Some shot_se)),
      (''shots/iphone_se/3.png'', File 1000 (Some shot_se)),
      (''shots/iphone_se/4.png'', File 1000 (Some shot_se))]"

text \<open>
  A complete screenshot tree: six files of the required resolution for each device, and
  one more image of the required resolution stored as \<open>7.jpg\<close> in the tablet's directory.
\<close>

definition fs_full :: fs where
  "fs_full = map_of
     ((''shots'', Dir [''iphone_se'', ''iphone_15'', ''iphone_15_pro_max'', ''ipad''])
      # device_files ''shots/iphone_se'' shot_se six
      @ device_files ''shots/iphone_15'' shot_15 six
      @ device_files ''shots/iphone_15_pro_max'' shot_max six
      @ device_files ''shots/ipad'' shot_ipad (''7.jpg'' # six))"

text \<open>
  A directory-less state holding a conforming master icon, and the state and arguments of
  a run that generates the dark variants into a fresh directory and validates them.
\<close>

definition fs_master :: fs where
  "fs_master = [''master.png'' \<mapsto> File 200000 (Some icon_ok)]"

definition fs_dark :: fs where
  "fs_dark = [''app-icon-dark.png'' \<mapsto> File 300000 (Some icon_ok)]"

definition args_dark :: args where
  "args_dark =
     \<lparr>arg_input = Some ''app-icon-dark.png'', arg_output = ''out'', arg_suffix = ''-dark'',
      arg_quality = 95, arg_update_contents_json = False, arg_validate = True\<rparr>"

text \<open>
  A text measurement, and two raw-screenshot states: a phone screenshot of 750 by 1334
  stored for the device \<open>iphone_15\<close>, and a tablet screenshot of the tablet's export size.
\<close>

definition bbox0 :: "font \<Rightarrow> string \<Rightarrow> int \<times> int \<times> int \<times> int" where
  "bbox0 fnt text = (0, 0, 20 * int (length text), 40)"

definition fs_raw :: fs where
  "fs_raw = [''raw/iphone_15/1.png'' \<mapsto> File 90000 (Some shot_se)]"

definition fs_raw_ipad :: fs where
  "fs_raw_ipad = [''raw/ipad/2_raw.png'' \<mapsto> File 90000 (Some shot_ipad)]"

section \<open>Properties of the asset validator\<close>

subsection \<open>The icon check\<close>

lemma validate_icon_file:
  assumes "fs p = Some (File bytes (Some img))"
  shows "fst (validate_icon fs p) \<longleftrightarrow>
           width img = 1024 \<and> height img = 1024 \<and> format img = Some ''PNG''
           \<and> of_nat bytes / (1024 * 1024) \<le> (1 / 2 :: rat)"
  using assms
  by (auto simp: validate_icon_def path_exists_def image_open_def getsize_def
      ICON_SPECS_def Let_def)

text \<open>
  Claim C4. An icon file that exists, is 1024 by 1024, has format PNG and is at most
  0.5 MB passes \<open>validate_icon\<close>; and from such a file, changing the dimensions alone, the
  format alone or the file size alone so that the rule is violated makes \<open>validate_icon\<close>
  fail.
\<close>

theorem validate_icon_rules:
  "fs p = Some (File bytes (Some img)) \<and> width img = 1024 \<and> height img = 1024
     \<and> format img = Some ''PNG'' \<and> of_nat bytes / (1024 * 1024) \<le> (1 / 2 :: rat)
   \<Longrightarrow>
   fst (validate_icon fs p)
   \<and> (w \<noteq> 1024 \<or> h \<noteq> 1024 \<longrightarrow>
        \<not> fst (validate_icon (fs(p \<mapsto> File bytes (Some (img\<lparr>width := w, height := h\<rparr>)))) p))
   \<and> (fmt \<noteq> Some ''PNG'' \<longrightarrow>
        \<not> fst (validate_icon (fs(p \<mapsto> File bytes (Some (img\<lparr>format := fmt\<rparr>)))) p))
   \<and> ((1 / 2 :: rat) < of_nat bytes' / (1024 * 1024) \<longrightarrow>
        \<not> fst (validate_icon (fs(p \<mapsto> File bytes' (Some img))) p))"
  by (simp add: validate_icon_file)

theorem validate_icon_rules_witness:
  "fst (validate_icon [''app-icon.png'' \<mapsto> File 300000 (Some icon_ok)] ''app-icon.png'')
   \<and> \<not> fst (validate_icon
        [''app-icon.png'' \<mapsto> File 300000 (Some (icon_ok\<lparr>width := 900, height := 900\<rparr>))]
        ''app-icon.png'')
   \<and> \<not> fst (validate_icon
        [''app-icon.png'' \<mapsto> File 300000 (Some (icon_ok\<lparr>format := Some ''JPEG''\<rparr>))]
        ''app-icon.png'')
   \<and> \<not> fst (validate_icon [''app-icon.png'' \<mapsto> File 600000 (Some icon_ok)]
        ''app-icon.png'')"
  using validate_icon_rules
    [of "[''app-icon.png'' \<mapsto> File 300000 (Some icon_ok)]" "''app-icon.png''" 300000
        icon_ok 900 900 "Some ''JPEG''" 600000]
  by (simp add: icon_ok_def)

lemma validate_icon_mode_independent:
  "fs p = Some (File bytes (Some img)) \<Longrightarrow>
   fst (validate_icon (fs(p \<mapsto> File bytes (Some (img\<lparr>mode := m\<rparr>)))) p)
     = fst (validate_icon fs p)"
  by (simp add: validate_icon_file)

text \<open>
  Claim C7, on the code: an icon file that satisfies the dimension, format and size rules
  passes whatever its colour mode, but the alpha warning is printed for the mode RGBA
  only. An icon that carries its alpha channel in another mode, such as the grey-with-alpha
  mode LA, gets the line for a pass without warnings.
\<close>

theorem validate_icon_warns_rgba_only:
  "fs p = Some (File bytes (Some img)) \<and> width img = 1024 \<and> height img = 1024
     \<and> format img = Some ''PNG'' \<and> of_nat bytes / (1024 * 1024) \<le> (1 / 2 :: rat)
   \<Longrightarrow>
   validate_icon fs p =
     (True,
      if mode img = ''RGBA'' then [ValidatingIcon p, AlphaWarning, PassWithWarnings]
      else [ValidatingIcon p,
            PassAllChecks 1024 1024 (Some ''PNG'') (of_nat bytes / (1024 * 1024))])"
  by (simp add: validate_icon_def path_exists_def image_open_def getsize_def
      ICON_SPECS_def Let_def)

theorem validate_icon_warns_rgba_only_witness:
  "validate_icon [''app-icon.png'' \<mapsto> File 300000 (Some (icon_ok\<lparr>mode := ''LA''\<rparr>))]
     ''app-icon.png''
   = (True, [ValidatingIcon ''app-icon.png'',
             PassAllChecks 1024 1024 (Some ''PNG'') (300000 / (1024 * 1024))])
   \<and> validate_icon [''app-icon.png'' \<mapsto> File 300000 (Some (icon_ok\<lparr>mode := ''RGBA''\<rparr>))]
       ''app-icon.png''
     = (True, [ValidatingIcon ''app-icon.png'', AlphaWarning, PassWithWarnings])"
  using validate_icon_warns_rgba_only
    [of "[''app-icon.png'' \<mapsto> File 300000 (Some (icon_ok\<lparr>mode := ''LA''\<rparr>))]"
        "''app-icon.png''" 300000 "icon_ok\<lparr>mode := ''LA''\<rparr>"]
    validate_icon_warns_rgba_only
    [of "[''app-icon.png'' \<mapsto> File 300000 (Some (icon_ok\<lparr>mode := ''RGBA''\<rparr>))]"
        "''app-icon.png''" 300000 "icon_ok\<lparr>mode := ''RGBA''\<rparr>"]
  by (simp add: icon_ok_def)

subsection \<open>The screenshot check as a function of what it reads\<close>

lemma check_screenshot_eq:
  "check_screenshot fs dd specs f ap = (ap \<and> shot_ok fs dd specs f, [shot_line fs dd specs f])"
  by (auto simp: check_screenshot_def shot_ok_def shot_line_def Let_def split: sum.splits)

lemma check_screenshots_eq:
  "check_screenshots fs dd specs fs' ap =
     (ap \<and> list_all (shot_ok fs dd specs) fs', map (shot_line fs dd specs) fs')"
  by (induction fs' arbitrary: ap) (simp_all add: check_screenshot_eq conj_assoc)

lemma validate_device_eq:
  "validate_device fs sd entry ap = (ap \<and> device_ok fs sd entry, device_lines fs sd entry)"
  by (simp add: validate_device_def device_ok_def device_lines_def pngs_def Let_def
      check_screenshots_eq)

lemma validate_devices_eq:
  "validate_devices fs sd entries ap =
     (ap \<and> list_all (device_ok fs sd) entries, concat (map (device_lines fs sd) entries))"
  by (induction entries arbitrary: ap) (simp_all add: validate_device_eq conj_assoc)

lemma validate_screenshots_eq:
  "validate_screenshots fs sd =
     (if \<not> path_isdir fs sd then (False, [ValidatingScreenshots sd, DirectoryNotFound])
      else (list_all (device_ok fs sd) SCREENSHOT_SPECS,
            ValidatingScreenshots sd # concat (map (device_lines fs sd) SCREENSHOT_SPECS)
            @ (if list_all (device_ok fs sd) SCREENSHOT_SPECS then [AllScreenshotsOk] else [])))"
  by (simp add: validate_screenshots_def validate_devices_eq)

lemma validate_device_fst:
  "fst (validate_device fs sd entry ap) = (ap \<and> device_ok fs sd entry)"
  by (simp add: validate_device_def device_ok_def pngs_def Let_def check_screenshots_eq)

lemma validate_devices_fst:
  "fst (validate_devices fs sd entries ap) = (ap \<and> list_all (device_ok fs sd) entries)"
  by (induction entries arbitrary: ap) (simp_all add: case_prod_beta validate_device_fst conj_assoc)

lemma validate_screenshots_fst:
  "fst (validate_screenshots fs sd) =
     (path_isdir fs sd \<and> list_all (device_ok fs sd) SCREENSHOT_SPECS)"
  by (simp add: validate_screenshots_def case_prod_beta validate_devices_fst)

lemma validate_device_snd_flag:
  "snd (validate_device fs sd entry ap) = snd (validate_device fs sd entry True)"
  by (simp add: validate_device_def Let_def check_screenshots_eq)

lemma validate_devices_snd:
  "snd (validate_devices fs sd entries ap) =
     concat (map (\<lambda>e. snd (validate_device fs sd e True)) entries)"
proof (induction entries arbitrary: ap)
  case Nil
  show ?case by simp
next
  case (Cons e es)
  show ?case
    using Cons.IH validate_device_snd_flag [of fs sd e ap]
    by (simp add: case_prod_beta)
qed

lemma device_lines_in_output:
  assumes "path_isdir fs sd" "entry \<in> set entries"
  shows "set (snd (validate_device fs sd entry ap))
           \<subseteq> set (snd (validate_devices fs sd entries True))"
  using assms validate_device_snd_flag [of fs sd entry ap]
  by (auto simp: validate_devices_snd)

lemma observers_cong:
  assumes "\<And>x. path_isdir fs' x = path_isdir fs x"
    and "\<And>x. pngs fs' x = pngs fs x"
    and "\<And>x. image_open fs' x = image_open fs x"
  shows "validate_screenshots fs' sd = validate_screenshots fs sd"
proof -
  have a: "shot_ok fs' = shot_ok fs" "shot_line fs' = shot_line fs"
    by (intro ext, simp add: shot_ok_def shot_line_def assms(3))+
  have "device_ok fs' sd = device_ok fs sd"
    by (intro ext) (simp add: device_ok_def Let_def assms(1,2) a)
  moreover have "device_lines fs' sd = device_lines fs sd"
    by (intro ext) (simp add: device_lines_def Let_def assms(1,2) a)
  ultimately show ?thesis by (simp add: validate_screenshots_eq assms(1))
qed

lemma shot_line_file: "report_file (shot_line fs dd specs f) = Some f"
  by (simp add: shot_line_def split: sum.splits)

lemma device_lines_files:
  assumes "r \<in> set (device_lines fs sd entry)" "report_file r = Some f"
  shows "endswith f ''.png''"
proof -
  have "f \<in> set (pngs fs (path_join sd (fst entry)))"
    using assms by (auto simp: device_lines_def Let_def shot_line_file split: if_splits)
  then show ?thesis by (simp add: pngs_def)
qed

subsection \<open>Paths of device directories and screenshots\<close>

lemma path_join_prefix:
  "b = [] \<or> hd b \<noteq> CHR ''/'' \<Longrightarrow> path_join a b = dir_prefix a @ b"
  by (auto simp: path_join_def dir_prefix_def)

lemma slash_free_hd: "CHR ''/'' \<notin> set b \<Longrightarrow> b = [] \<or> hd b \<noteq> CHR ''/''"
  by (cases b) auto

lemma slash_split:
  "CHR ''/'' \<notin> set a \<Longrightarrow> CHR ''/'' \<notin> set a' \<Longrightarrow>
   a @ CHR ''/'' # b = a' @ CHR ''/'' # b' \<Longrightarrow> a = a' \<and> b = b'"
proof (induction a arbitrary: a')
  case Nil
  then show ?case by (cases a') auto
next
  case (Cons x xs)
  then show ?case by (cases a') auto
qed

lemma table_slash_free: "entry \<in> set SCREENSHOT_SPECS \<Longrightarrow> slash_free_name (fst entry)"
  by (auto simp: SCREENSHOT_SPECS_def slash_free_name_def)

lemma table_functional:
  "e \<in> set SCREENSHOT_SPECS \<Longrightarrow> e' \<in> set SCREENSHOT_SPECS \<Longrightarrow> fst e = fst e' \<Longrightarrow> e = e'"
  by (auto simp: SCREENSHOT_SPECS_def)

lemma device_dir_eq:
  assumes "slash_free_name d"
  shows "path_join sd d = dir_prefix sd @ d"
  using assms by (intro path_join_prefix) (auto simp: slash_free_name_def dest: slash_free_hd)

lemma device_dir_prefix:
  assumes "slash_free_name d"
  shows "dir_prefix (path_join sd d) = dir_prefix sd @ d @ ''/''"
proof -
  have "last (dir_prefix sd @ d) = last d" using assms by (simp add: slash_free_name_def)
  moreover have "last d \<noteq> CHR ''/''"
    by (metis assms slash_free_name_def last_in_set)
  ultimately show ?thesis using assms
    by (simp add: device_dir_eq) (simp add: dir_prefix_def slash_free_name_def)
qed

lemma shot_path_eq:
  assumes "slash_free_name d" "CHR ''/'' \<notin> set f"
  shows "path_join (path_join sd d) f = dir_prefix sd @ d @ CHR ''/'' # f"
  using assms device_dir_prefix [OF assms(1), of sd] slash_free_hd [OF assms(2)]
  by (simp add: path_join_prefix)

lemma shot_path_inj:
  assumes "slash_free_name d" "slash_free_name d'" "CHR ''/'' \<notin> set f" "CHR ''/'' \<notin> set f'"
    and "path_join (path_join sd d) f = path_join (path_join sd d') f'"
  shows "d = d' \<and> f = f'"
  using assms slash_split [of d d' f f']
  by (simp add: shot_path_eq slash_free_name_def)

lemma shot_path_not_device_dir:
  assumes "slash_free_name d" "slash_free_name d'" "CHR ''/'' \<notin> set f"
  shows "path_join (path_join sd d) f \<noteq> path_join sd d'"
proof
  assume "path_join (path_join sd d) f = path_join sd d'"
  then have "dir_prefix sd @ d @ CHR ''/'' # f = dir_prefix sd @ d'"
    using shot_path_eq [OF assms(1,3), of sd] device_dir_eq [OF assms(2), of sd] by simp
  then have "d @ CHR ''/'' # f = d'" by simp
  then have "CHR ''/'' \<in> set d'" by auto
  then show False using assms(2) by (simp add: slash_free_name_def)
qed

lemma shot_path_not_root:
  assumes "slash_free_name d" "CHR ''/'' \<notin> set f"
  shows "path_join (path_join sd d) f \<noteq> sd"
proof
  assume "path_join (path_join sd d) f = sd"
  then have "length (dir_prefix sd @ d @ CHR ''/'' # f) = length sd"
    using assms by (simp add: shot_path_eq)
  then show False by (simp add: dir_prefix_def split: if_splits)
qed

lemma device_dir_not_root:
  assumes "slash_free_name d"
  shows "path_join sd d \<noteq> sd"
proof
  assume "path_join sd d = sd"
  then have "length (dir_prefix sd @ d) = length sd" using assms by (simp add: device_dir_eq)
  then show False using assms by (simp add: dir_prefix_def slash_free_name_def split: if_splits)
qed

lemma device_dir_inj:
  assumes "slash_free_name d" "slash_free_name d'" "path_join sd d = path_join sd d'"
  shows "d = d'"
  using assms by (simp add: device_dir_eq)

subsection \<open>Adding and removing a file\<close>

lemma filter_take_drop_length:
  "length (filter P xs) \<le> length (filter P (take k xs @ n # drop k xs))"
proof -
  have "filter P xs = filter P (take k xs) @ filter P (drop k xs)"
    by (metis append_take_drop_id filter_append)
  then show ?thesis by simp
qed

lemma filter_removeAll_length:
  "length (filter P (removeAll n xs)) \<le> length (filter P xs)"
  by (induction xs) auto

lemma filter_removeAll_less:
  "n \<in> set xs \<Longrightarrow> P n \<Longrightarrow> length (filter P (removeAll n xs)) < length (filter P xs)"
proof (induction xs)
  case Nil
  then show ?case by simp
next
  case (Cons x xs)
  then show ?case
    using filter_removeAll_length [of P n xs] by (cases "x = n") auto
qed

lemma device_ok_add:
  assumes entry: "entry \<in> set SCREENSHOT_SPECS"
    and wf: "listing_ok fs sd"
    and name: "CHR ''/'' \<notin> set name"
    and img: "width img = fst (shot_size (snd entry))" "height img = snd (shot_size (snd entry))"
    and e': "e' \<in> set SCREENSHOT_SPECS"
    and ok: "device_ok fs sd e'"
  shows "device_ok (add_file fs (path_join sd (fst entry)) k name bytes img) sd e'"
proof (cases "fs (path_join sd (fst entry))")
  case None
  then show ?thesis using ok by (simp add: add_file_def)
next
  case (Some nd)
  show ?thesis
  proof (cases nd)
    case (File n i)
    then show ?thesis using ok Some by (simp add: add_file_def)
  next
    case (Dir names)
    let ?dd = "path_join sd (fst entry)"
    let ?dd' = "path_join sd (fst e')"
    let ?p = "path_join ?dd name"
    let ?fs' = "add_file fs ?dd k name bytes img"
    have dn: "slash_free_name (fst entry)" "slash_free_name (fst e')"
      using entry e' by (simp_all add: table_slash_free)
    have fs': "?fs' = fs(?dd \<mapsto> Dir (take k names @ name # drop k names),
                        ?p \<mapsto> File bytes (Some img))"
      using Some Dir by (simp add: add_file_def)
    have pdd: "?p \<noteq> ?dd'" "?p \<noteq> ?dd"
      using shot_path_not_device_dir [OF dn(1) dn(2) name, of sd]
        shot_path_not_device_dir [OF dn(1) dn(1) name, of sd] by simp_all
    have isdir: "path_isdir fs ?dd'" and cnt: "shot_count (snd e') \<le> length (pngs fs ?dd')"
      and all: "list_all (shot_ok fs ?dd' (snd e')) (pngs fs ?dd')"
      using ok by (simp_all add: device_ok_def Let_def)
    have 1: "path_isdir ?fs' ?dd'"
      using isdir pdd by (simp add: fs' path_isdir_def)
    have lst1: "listdir ?fs' ?dd = take k names @ name # drop k names"
      using pdd by (simp add: fs' listdir_def)
    have lst2: "?dd' \<noteq> ?dd \<Longrightarrow> listdir ?fs' ?dd' = listdir fs ?dd'"
      using pdd by (simp add: fs' listdir_def)
    have old: "listdir fs ?dd = names" using Some Dir by (simp add: listdir_def)
    have 2: "shot_count (snd e') \<le> length (pngs ?fs' ?dd')"
    proof (cases "?dd' = ?dd")
      case True
      then show ?thesis
        using cnt old filter_take_drop_length [of "\<lambda>f. endswith f ''.png''" names k name]
        by (simp add: pngs_def lst1)
    next
      case False
      then show ?thesis using cnt by (simp add: pngs_def lst2)
    qed
    have 3: "shot_ok ?fs' ?dd' (snd e') f" if f: "f \<in> set (pngs ?fs' ?dd')" for f
    proof (cases "?dd' = ?dd \<and> f = name")
      case True
      then have "fst e' = fst entry" using device_dir_inj [OF dn(2) dn(1), of sd] by blast
      then have "e' = entry" using table_functional [OF e' entry] by simp
      then show ?thesis using True img by (simp add: shot_ok_def fs' image_open_def)
    next
      case False
      have fin: "f \<in> set (pngs fs ?dd')"
      proof (cases "?dd' = ?dd")
        case True
        then have "f \<in> set (take k names) \<union> set (drop k names)"
          using f False by (auto simp: pngs_def lst1 split: if_splits)
        then have "f \<in> set names"
          by (metis Un_iff in_set_dropD in_set_takeD)
        then show ?thesis using f True old by (simp add: pngs_def)
      next
        case False
        then show ?thesis using f by (simp add: pngs_def lst2)
      qed
      then have fsl: "CHR ''/'' \<notin> set f"
        using wf e' by (auto simp: listing_ok_def pngs_def)
      have "path_join ?dd' f \<noteq> ?p"
        using shot_path_inj [OF dn(2) dn(1) fsl name, of sd] False device_dir_inj by auto
      moreover have "path_join ?dd' f \<noteq> ?dd"
        using shot_path_not_device_dir [OF dn(2) dn(1) fsl, of sd] by simp
      ultimately have "image_open ?fs' (path_join ?dd' f) = image_open fs (path_join ?dd' f)"
        by (simp add: fs' image_open_def)
      moreover have "shot_ok fs ?dd' (snd e') f"
        using all fin by (simp add: list_all_iff)
      ultimately show ?thesis by (simp add: shot_ok_def)
    qed
    show ?thesis using 1 2 3 by (simp add: device_ok_def Let_def list_all_iff)
  qed
qed

lemma isdir_root_add:
  assumes entry: "entry \<in> set SCREENSHOT_SPECS" and name: "CHR ''/'' \<notin> set name"
    and "path_isdir fs sd"
  shows "path_isdir (add_file fs (path_join sd (fst entry)) k name bytes img) sd"
proof -
  have dn: "slash_free_name (fst entry)" using entry by (simp add: table_slash_free)
  have "path_join (path_join sd (fst entry)) name \<noteq> sd" "path_join sd (fst entry) \<noteq> sd"
    using shot_path_not_root [OF dn name] device_dir_not_root [OF dn] by simp_all
  then show ?thesis using assms(3)
    by (auto simp: add_file_def path_isdir_def split: option.splits node.splits)
qed

lemma device_ok_remove:
  assumes entry: "entry \<in> set SCREENSHOT_SPECS"
    and wf: "listing_ok fs sd"
    and name: "CHR ''/'' \<notin> set name"
    and img: "width img = fst (shot_size (snd entry))" "height img = snd (shot_size (snd entry))"
    and fl: "fs (path_join (path_join sd (fst entry)) name) = Some (File bytes (Some img))"
    and e': "e' \<in> set SCREENSHOT_SPECS"
    and ok: "device_ok (remove_file fs (path_join sd (fst entry)) name) sd e'"
  shows "device_ok fs sd e'"
proof (cases "fs (path_join sd (fst entry))")
  case None
  then show ?thesis using ok by (simp add: remove_file_def)
next
  case (Some nd)
  show ?thesis
  proof (cases nd)
    case (File n i)
    then show ?thesis using ok Some by (simp add: remove_file_def)
  next
    case (Dir names)
    let ?dd = "path_join sd (fst entry)"
    let ?dd' = "path_join sd (fst e')"
    let ?p = "path_join ?dd name"
    let ?fs' = "remove_file fs ?dd name"
    have dn: "slash_free_name (fst entry)" "slash_free_name (fst e')"
      using entry e' by (simp_all add: table_slash_free)
    have fs': "?fs' = (fs(?dd \<mapsto> Dir (removeAll name names)))(?p := None)"
      using Some Dir by (simp add: remove_file_def)
    have pdd: "?p \<noteq> ?dd'" "?p \<noteq> ?dd"
      using shot_path_not_device_dir [OF dn(1) dn(2) name, of sd]
        shot_path_not_device_dir [OF dn(1) dn(1) name, of sd] by simp_all
    have isdir: "path_isdir ?fs' ?dd'" and cnt: "shot_count (snd e') \<le> length (pngs ?fs' ?dd')"
      and all: "list_all (shot_ok ?fs' ?dd' (snd e')) (pngs ?fs' ?dd')"
      using ok by (simp_all add: device_ok_def Let_def)
    have old: "listdir fs ?dd = names" using Some Dir by (simp add: listdir_def)
    have lst1: "listdir ?fs' ?dd = removeAll name names"
      using pdd by (simp add: fs' listdir_def)
    have lst2: "?dd' \<noteq> ?dd \<Longrightarrow> listdir ?fs' ?dd' = listdir fs ?dd'"
      using pdd by (simp add: fs' listdir_def)
    have 1: "path_isdir fs ?dd'"
      using isdir pdd Some Dir by (simp add: fs' path_isdir_def split: if_splits)
    have 2: "shot_count (snd e') \<le> length (pngs fs ?dd')"
    proof (cases "?dd' = ?dd")
      case True
      then show ?thesis
        using cnt old filter_removeAll_length [of "\<lambda>f. endswith f ''.png''" name names]
        by (simp add: pngs_def lst1)
    next
      case False
      then show ?thesis using cnt by (simp add: pngs_def lst2)
    qed
    have 3: "shot_ok fs ?dd' (snd e') f" if f: "f \<in> set (pngs fs ?dd')" for f
    proof (cases "?dd' = ?dd \<and> f = name")
      case True
      then have "fst e' = fst entry" using device_dir_inj [OF dn(2) dn(1), of sd] by blast
      then have "e' = entry" using table_functional [OF e' entry] by simp
      then show ?thesis using True img fl by (simp add: shot_ok_def image_open_def)
    next
      case False
      have fin: "f \<in> set (pngs ?fs' ?dd')"
      proof (cases "?dd' = ?dd")
        case True
        then show ?thesis using f False old by (auto simp: pngs_def lst1)
      next
        case False
        then show ?thesis using f by (simp add: pngs_def lst2)
      qed
      have fsl: "CHR ''/'' \<notin> set f"
        using wf e' f by (auto simp: listing_ok_def pngs_def)
      have "path_join ?dd' f \<noteq> ?p"
        using shot_path_inj [OF dn(2) dn(1) fsl name, of sd] False device_dir_inj by auto
      moreover have "path_join ?dd' f \<noteq> ?dd"
        using shot_path_not_device_dir [OF dn(2) dn(1) fsl, of sd] by simp
      ultimately have "image_open ?fs' (path_join ?dd' f) = image_open fs (path_join ?dd' f)"
        by (simp add: fs' image_open_def)
      moreover have "shot_ok ?fs' ?dd' (snd e') f"
        using all fin by (simp add: list_all_iff)
      ultimately show ?thesis by (simp add: shot_ok_def)
    qed
    show ?thesis using 1 2 3 by (simp add: device_ok_def Let_def list_all_iff)
  qed
qed

lemma isdir_root_remove:
  assumes entry: "entry \<in> set SCREENSHOT_SPECS" and name: "CHR ''/'' \<notin> set name"
    and "path_isdir (remove_file fs (path_join sd (fst entry)) name) sd"
  shows "path_isdir fs sd"
proof -
  have dn: "slash_free_name (fst entry)" using entry by (simp add: table_slash_free)
  have "path_join (path_join sd (fst entry)) name \<noteq> sd" "path_join sd (fst entry) \<noteq> sd"
    using shot_path_not_root [OF dn name] device_dir_not_root [OF dn] by simp_all
  then show ?thesis using assms(3)
    by (auto simp: remove_file_def path_isdir_def split: option.splits node.splits if_splits)
qed

lemma remove_needed_fails:
  assumes entry: "entry \<in> set SCREENSHOT_SPECS" and name: "CHR ''/'' \<notin> set name"
    and few: "length (pngs fs (path_join sd (fst entry))) \<le> shot_count (snd entry)"
    and mem: "name \<in> set (pngs fs (path_join sd (fst entry)))"
  shows "\<not> device_ok (remove_file fs (path_join sd (fst entry)) name) sd entry"
proof -
  let ?dd = "path_join sd (fst entry)"
  let ?p = "path_join ?dd name"
  obtain names where nm: "fs ?dd = Some (Dir names)"
    using mem by (cases "fs ?dd"; cases "the (fs ?dd)") (auto simp: pngs_def listdir_def)
  have dn: "slash_free_name (fst entry)" using entry by (simp add: table_slash_free)
  have pdd: "?p \<noteq> ?dd" using shot_path_not_device_dir [OF dn dn name, of sd] by simp
  have "listdir (remove_file fs ?dd name) ?dd = removeAll name names"
    using nm pdd by (simp add: remove_file_def listdir_def)
  moreover have "name \<in> set names" "endswith name ''.png''" "listdir fs ?dd = names"
    using mem nm by (simp_all add: pngs_def listdir_def)
  ultimately have "length (pngs (remove_file fs ?dd name) ?dd) < length (pngs fs ?dd)"
    using filter_removeAll_less [of name names "\<lambda>f. endswith f ''.png''"]
    by (simp add: pngs_def)
  then show ?thesis using few by (simp add: device_ok_def Let_def)
qed

subsection \<open>The example states\<close>

lemma fs_full_pass: "fst (validate_screenshots fs_full ''shots'')"
  by (simp add: validate_screenshots_def SCREENSHOT_SPECS_def validate_device_def
      check_screenshot_def image_open_def
      path_isdir_def fs_full_def device_files_def six_def path_join_def listdir_def
      endswith_def Let_def shot_se_def shot_15_def shot_max_def shot_ipad_def)

lemma fs_full_listing: "listing_ok fs_full ''shots''"
  by (simp add: listing_ok_def SCREENSHOT_SPECS_def 
      fs_full_def device_files_def six_def path_join_def listdir_def)

lemma fs_short_fail: "\<not> fst (validate_screenshots fs_short ''shots'')"
  by (simp add: validate_screenshots_def SCREENSHOT_SPECS_def validate_device_def
      path_isdir_def fs_short_def path_join_def listdir_def endswith_def Let_def)

lemma fs_short_listing: "listing_ok fs_short ''shots''"
  by (simp add: listing_ok_def SCREENSHOT_SPECS_def fs_short_def path_join_def listdir_def)

subsection \<open>Short counts\<close>

text \<open>
  Claim C1, as stated, fails: on a tree whose first device directory holds four
  correctly sized screenshots, \<open>validate_screenshots\<close> reports the short count and prints no
  status line for any of the four files.
\<close>

theorem short_count_counterexample:
  "validate_screenshots fs_short ''shots'' =
     (False,
      [ValidatingScreenshots ''shots'',
       DeviceHeader ''iphone_se'', FoundTooFew 4 6,
       DeviceHeader ''iphone_15'', DeviceDirNotFound ''shots/iphone_15'',
       DeviceHeader ''iphone_15_pro_max'', DeviceDirNotFound ''shots/iphone_15_pro_max'',
       DeviceHeader ''ipad'', DeviceDirNotFound ''shots/ipad''])"
  by (simp add: validate_screenshots_def SCREENSHOT_SPECS_def validate_device_def
      path_isdir_def fs_short_def path_join_def listdir_def endswith_def Let_def)

text \<open>
  Claim C1, amended. For every device of the table whose directory exists, the lines of
  that device are part of the report, and: when the directory holds fewer \<open>.png\<close> files than
  the required minimum, the short count is reported, the result is a failure and the device
  gets no other line (no file of it is opened); when it holds at least the minimum, every
  \<open>.png\<close> file present gets its own status line, whatever the status of the files before it.
\<close>

theorem validate_screenshots_count_gate:
  assumes "path_isdir fs sd" and "entry \<in> set SCREENSHOT_SPECS"
    and "path_isdir fs (path_join sd (fst entry))"
  shows
   "set (snd (validate_device fs sd entry ap)) \<subseteq> set (snd (validate_screenshots fs sd))
    \<and> (length (pngs fs (path_join sd (fst entry))) < shot_count (snd entry) \<longrightarrow>
         \<not> fst (validate_screenshots fs sd)
         \<and> snd (validate_device fs sd entry ap) =
             [DeviceHeader (fst entry),
              FoundTooFew (length (pngs fs (path_join sd (fst entry)))) (shot_count (snd entry))])
    \<and> (shot_count (snd entry) \<le> length (pngs fs (path_join sd (fst entry))) \<longrightarrow>
         snd (validate_device fs sd entry ap) =
           DeviceHeader (fst entry)
           # map (shot_line fs (path_join sd (fst entry)) (snd entry))
               (pngs fs (path_join sd (fst entry))))"
proof -
  have a: "set (snd (validate_device fs sd entry ap)) \<subseteq> set (snd (validate_screenshots fs sd))"
    using device_lines_in_output [OF assms(1,2), of ap] assms(1)
    by (auto simp: validate_screenshots_def case_prod_beta)
  have b: "\<not> fst (validate_screenshots fs sd)"
    if "length (pngs fs (path_join sd (fst entry))) < shot_count (snd entry)"
  proof -
    have "\<not> device_ok fs sd entry" using that by (simp add: device_ok_def Let_def)
    then show ?thesis using assms(2)
      by (auto simp: validate_screenshots_fst list_all_iff)
  qed
  have c: "snd (validate_device fs sd entry ap) =
             [DeviceHeader (fst entry),
              FoundTooFew (length (pngs fs (path_join sd (fst entry)))) (shot_count (snd entry))]"
    if "length (pngs fs (path_join sd (fst entry))) < shot_count (snd entry)"
    using that assms(3) by (simp add: validate_device_def Let_def pngs_def)
  have d: "snd (validate_device fs sd entry ap) =
           DeviceHeader (fst entry)
           # map (shot_line fs (path_join sd (fst entry)) (snd entry))
               (pngs fs (path_join sd (fst entry)))"
    if "shot_count (snd entry) \<le> length (pngs fs (path_join sd (fst entry)))"
    using that assms(3)
    by (simp add: validate_device_def Let_def pngs_def check_screenshots_eq)
  show ?thesis using a b c d by blast
qed

theorem validate_screenshots_count_gate_witness:
  "snd (validate_device fs_short ''shots''
          (''iphone_se'', \<lparr>shot_size = (750, 1334), shot_count = 6\<rparr>) True)
     = [DeviceHeader ''iphone_se'', FoundTooFew 4 6]
   \<and> \<not> fst (validate_screenshots fs_short ''shots'')
   \<and> snd (validate_device fs_full ''shots''
          (''ipad'', \<lparr>shot_size = (1640, 2360), shot_count = 6\<rparr>) True)
     = [DeviceHeader ''ipad'',
        ShotOk ''1.png'' 1640 2360, ShotOk ''2.png'' 1640 2360, ShotOk ''3.png'' 1640 2360,
        ShotOk ''4.png'' 1640 2360, ShotOk ''5.png'' 1640 2360, ShotOk ''6.png'' 1640 2360]"
proof -
  have e1: "(''iphone_se'', \<lparr>shot_size = (750, 1334), shot_count = 6\<rparr>) \<in> set SCREENSHOT_SPECS"
    and e2: "(''ipad'', \<lparr>shot_size = (1640, 2360), shot_count = 6\<rparr>) \<in> set SCREENSHOT_SPECS"
    by (simp_all add: SCREENSHOT_SPECS_def)
  have d1: "path_isdir fs_short ''shots''"
    "path_isdir fs_short (path_join ''shots'' ''iphone_se'')"
    "pngs fs_short (path_join ''shots'' ''iphone_se'') = [''1.png'', ''2.png'', ''3.png'', ''4.png'']"
    by (simp_all add: path_isdir_def fs_short_def path_join_def pngs_def listdir_def
        endswith_def)
  have d2: "path_isdir fs_full ''shots''"
    "path_isdir fs_full (path_join ''shots'' ''ipad'')"
    "pngs fs_full (path_join ''shots'' ''ipad'') = six"
    by (simp_all add: path_isdir_def fs_full_def device_files_def six_def path_join_def
        pngs_def listdir_def endswith_def)
  have l: "map (shot_line fs_full (path_join ''shots'' ''ipad'')
                 \<lparr>shot_size = (1640, 2360), shot_count = 6\<rparr>) six
           = [ShotOk ''1.png'' 1640 2360, ShotOk ''2.png'' 1640 2360, ShotOk ''3.png'' 1640 2360,
              ShotOk ''4.png'' 1640 2360, ShotOk ''5.png'' 1640 2360, ShotOk ''6.png'' 1640 2360]"
    by (simp add: shot_line_def image_open_def fs_full_def device_files_def six_def
        path_join_def shot_ipad_def shot_se_def)
  show ?thesis
    using validate_screenshots_count_gate [OF d1(1) e1, of True]
      validate_screenshots_count_gate [OF d2(1) e2, of True] d1 d2 l
    by (simp add: six_def)
qed

subsection \<open>Only names ending in .png\<close>

text \<open>
  Claim C10. \<open>validate_screenshots\<close> returns the same verdict and prints the same lines
  when the names not ending in \<open>.png\<close> are deleted from the listing of any directory, so
  such files count for nothing; and every status line of a file is about a name ending in
  \<open>.png\<close>.
\<close>

theorem validate_screenshots_png_only:
  "fs d = Some (Dir names) \<Longrightarrow>
   validate_screenshots (fs(d \<mapsto> Dir (filter (\<lambda>f. endswith f ''.png'') names))) sd
     = validate_screenshots fs sd
   \<and> (\<forall>r \<in> set (snd (validate_screenshots fs sd)).
        \<forall>f. report_file r = Some f \<longrightarrow> endswith f ''.png'')"
proof -
  assume h: "fs d = Some (Dir names)"
  let ?fs' = "fs(d \<mapsto> Dir (filter (\<lambda>f. endswith f ''.png'') names))"
  have 1: "\<And>x. path_isdir ?fs' x = path_isdir fs x"
    using h by (simp add: path_isdir_def)
  have 2: "\<And>x. pngs ?fs' x = pngs fs x"
    using h by (simp add: pngs_def listdir_def)
  have 3: "\<And>x. image_open ?fs' x = image_open fs x"
    using h by (simp add: image_open_def)
  have a: "validate_screenshots ?fs' sd = validate_screenshots fs sd"
    by (rule observers_cong [OF 1 2 3])
  have b: "endswith f ''.png''"
    if "r \<in> set (snd (validate_screenshots fs sd))" "report_file r = Some f" for r f
    using that device_lines_files [of r fs sd _ f]
    by (auto simp: validate_screenshots_eq split: if_splits)
  show ?thesis using a b by blast
qed

theorem validate_screenshots_png_only_witness:
  "validate_screenshots (fs_full(''shots/ipad'' \<mapsto> Dir six)) ''shots''
     = validate_screenshots fs_full ''shots''
   \<and> ShotOk ''7.jpg'' 1640 2360 \<notin> set (snd (validate_screenshots fs_full ''shots''))"
proof -
  have d: "fs_full ''shots/ipad'' = Some (Dir (''7.jpg'' # six))"
    by (simp add: fs_full_def device_files_def six_def)
  have f: "filter (\<lambda>f. endswith f ''.png'') six = six"
    by (simp add: six_def endswith_def)
  have n: "\<not> endswith ''7.jpg'' ''.png''" by (simp add: endswith_def)
  show ?thesis
    using validate_screenshots_png_only
            [of fs_full "''shots/ipad''" "''7.jpg'' # six" "''shots''"] d n
    by (auto simp: f)
qed

subsection \<open>Monotonicity in file presence\<close>

text \<open>
  Claim C6. For a device of the table and a file name: if \<open>validate_screenshots\<close> passes,
  it still passes after a file of the device's required resolution is added to the device's
  directory under that name, at any position of the listing; and if it fails, it still
  fails after a required file is removed from the device's directory, a required file being
  a file of the required resolution, or any \<open>.png\<close> file of a directory that holds no more
  than the required number of them.
\<close>

theorem validate_screenshots_monotonic:
  assumes "entry \<in> set SCREENSHOT_SPECS" and "listing_ok fs sd"
    and "CHR ''/'' \<notin> set name"
    and "width img = fst (shot_size (snd entry))"
    and "height img = snd (shot_size (snd entry))"
  shows
    "(fst (validate_screenshots fs sd) \<longrightarrow>
        fst (validate_screenshots
               (add_file fs (path_join sd (fst entry)) k name bytes img) sd))
     \<and> (fs (path_join (path_join sd (fst entry)) name) = Some (File bytes (Some img))
          \<and> \<not> fst (validate_screenshots fs sd) \<longrightarrow>
        \<not> fst (validate_screenshots (remove_file fs (path_join sd (fst entry)) name) sd))
     \<and> (name \<in> set (pngs fs (path_join sd (fst entry)))
          \<and> length (pngs fs (path_join sd (fst entry))) \<le> shot_count (snd entry)
          \<and> \<not> fst (validate_screenshots fs sd) \<longrightarrow>
        \<not> fst (validate_screenshots (remove_file fs (path_join sd (fst entry)) name) sd))"
proof (intro conjI impI)
  assume "fst (validate_screenshots fs sd)"
  then have a: "path_isdir fs sd" and b: "\<forall>e \<in> set SCREENSHOT_SPECS. device_ok fs sd e"
    by (simp_all add: validate_screenshots_fst list_all_iff)
  show "fst (validate_screenshots (add_file fs (path_join sd (fst entry)) k name bytes img) sd)"
    using isdir_root_add [OF assms(1,3) a] device_ok_add [OF assms] b
    by (simp add: validate_screenshots_fst list_all_iff)
next
  assume h: "fs (path_join (path_join sd (fst entry)) name) = Some (File bytes (Some img))
             \<and> \<not> fst (validate_screenshots fs sd)"
  show "\<not> fst (validate_screenshots (remove_file fs (path_join sd (fst entry)) name) sd)"
  proof
    assume "fst (validate_screenshots (remove_file fs (path_join sd (fst entry)) name) sd)"
    then have a: "path_isdir (remove_file fs (path_join sd (fst entry)) name) sd"
      and b: "\<forall>e \<in> set SCREENSHOT_SPECS.
                device_ok (remove_file fs (path_join sd (fst entry)) name) sd e"
      by (simp_all add: validate_screenshots_fst list_all_iff)
    have "fst (validate_screenshots fs sd)"
      using isdir_root_remove [OF assms(1,3) a] device_ok_remove [OF assms] h b
      by (simp add: validate_screenshots_fst list_all_iff)
    then show False using h by simp
  qed
next
  assume h: "name \<in> set (pngs fs (path_join sd (fst entry)))
          \<and> length (pngs fs (path_join sd (fst entry))) \<le> shot_count (snd entry)
          \<and> \<not> fst (validate_screenshots fs sd)"
  show "\<not> fst (validate_screenshots (remove_file fs (path_join sd (fst entry)) name) sd)"
    using remove_needed_fails [OF assms(1,3)] h assms(1)
    by (auto simp: validate_screenshots_fst list_all_iff)
qed

theorem validate_screenshots_monotonic_witness:
  "fst (validate_screenshots fs_full ''shots'')
   \<and> fst (validate_screenshots
            (add_file fs_full ''shots/iphone_se'' 0 ''7.png'' 2000 shot_se) ''shots'')
   \<and> \<not> fst (validate_screenshots fs_short ''shots'')
   \<and> \<not> fst (validate_screenshots (remove_file fs_short ''shots/iphone_se'' ''1.png'') ''shots'')"
proof -
  have e: "(''iphone_se'', \<lparr>shot_size = (750, 1334), shot_count = 6\<rparr>) \<in> set SCREENSHOT_SPECS"
    by (simp add: SCREENSHOT_SPECS_def)
  have j: "path_join ''shots'' ''iphone_se'' = ''shots/iphone_se''"
    by (simp add: path_join_def)
  have f: "fs_short ''shots/iphone_se/1.png'' = Some (File 1000 (Some shot_se))"
    "path_join ''shots/iphone_se'' ''1.png'' = ''shots/iphone_se/1.png''"
    "''1.png'' \<in> set (pngs fs_short ''shots/iphone_se'')"
    "length (pngs fs_short ''shots/iphone_se'') \<le> 6"
    by (simp_all add: fs_short_def path_join_def pngs_def listdir_def endswith_def)
  show ?thesis
    using validate_screenshots_monotonic [OF e fs_full_listing, of "''7.png''" shot_se 0 2000]
      validate_screenshots_monotonic [OF e fs_short_listing, of "''1.png''" shot_se 0 1000]
      fs_full_pass fs_short_fail f
    by (simp add: j shot_se_def)
qed

section \<open>Properties of the icon variant generators\<close>

lemma save_png_ok:
  "\<not> path_isdir fs p \<Longrightarrow> save_png enc fs p img = Inr (fs(p \<mapsto> written enc img))"
  by (auto simp: save_png_def path_isdir_def written_def split: option.splits node.splits)

lemma write_variants_ok:
  assumes "\<forall>e \<in> set es. \<not> path_isdir fs (variant_path out suffix e)"
    and "distinct (map (variant_path out suffix) es)"
  shows "\<exists>fs'. write_variants enc fs master out suffix es
               = (fs', Inr (map (variant_path out suffix) es))
           \<and> (\<forall>e \<in> set es. fs' (variant_path out suffix e)
                  = Some (written enc (resize master (fst e, fst e))))
           \<and> (\<forall>p. p \<notin> variant_path out suffix ` set es \<longrightarrow> fs' p = fs p)"
  using assms
proof (induction es arbitrary: fs)
  case Nil
  then show ?case by simp
next
  case (Cons e es)
  obtain S D sc name where e: "e = (S, D, sc, name)" by (cases e) auto
  let ?p = "variant_path out suffix e"
  let ?fs1 = "fs(?p \<mapsto> written enc (resize master (S, S)))"
  have nd: "\<not> path_isdir fs ?p" using Cons.prems(1) by simp
  have fresh: "?p \<notin> variant_path out suffix ` set es" using Cons.prems(2) by simp
  have "\<forall>e' \<in> set es. \<not> path_isdir ?fs1 (variant_path out suffix e')"
    using Cons.prems(1) fresh by (auto simp: path_isdir_def written_def)
  moreover have "distinct (map (variant_path out suffix) es)" using Cons.prems(2) by simp
  ultimately obtain fs' where
    r: "write_variants enc ?fs1 master out suffix es
          = (fs', Inr (map (variant_path out suffix) es))"
    and w: "\<forall>e' \<in> set es. fs' (variant_path out suffix e')
              = Some (written enc (resize master (fst e', fst e')))"
    and o: "\<forall>p. p \<notin> variant_path out suffix ` set es \<longrightarrow> fs' p = ?fs1 p"
    using Cons.IH [of ?fs1] by blast
  have p: "path_join out (with_suffix name suffix) = ?p" by (simp add: variant_path_def e)
  have "write_variants enc fs master out suffix (e # es)
          = (fs', Inr (map (variant_path out suffix) (e # es)))"
    using save_png_ok [OF nd, of enc "resize master (S, S)"] r
    by (simp add: e p Let_def)
  moreover have "fs' ?p = Some (written enc (resize master (fst e, fst e)))"
    using o fresh by (simp add: e)
  moreover have "\<forall>q. q \<notin> variant_path out suffix ` set (e # es) \<longrightarrow> fs' q = fs q"
    using o by auto
  ultimately show ?case using w by auto
qed

lemma suffixed_names:
  "suffix \<noteq> [] \<Longrightarrow>
   map (\<lambda>e. with_suffix (snd (snd (snd e))) suffix) IOS_ICON_SIZES =
     map (\<lambda>stem. stem @ suffix @ ''.png'')
       [''app-icon-1024'', ''app-icon-512'', ''app-icon-256'', ''app-icon-128'',
        ''app-icon-64@2x'', ''app-icon-60@2x'', ''app-icon-60@3x'', ''app-icon-40@2x'',
        ''app-icon-40@3x'', ''app-icon-29@2x'', ''app-icon-29@3x'', ''app-icon-20@2x'',
        ''app-icon-20@3x'', ''app-icon-16'']"
  by (simp add: IOS_ICON_SIZES_def with_suffix_def splitext_def rfind_def Let_def)

lemma plain_names:
  "map (\<lambda>e. with_suffix (snd (snd (snd e))) []) IOS_ICON_SIZES =
     map (\<lambda>stem. stem @ ''.png'')
       [''app-icon-1024'', ''app-icon-512'', ''app-icon-256'', ''app-icon-128'',
        ''app-icon-64@2x'', ''app-icon-60@2x'', ''app-icon-60@3x'', ''app-icon-40@2x'',
        ''app-icon-40@3x'', ''app-icon-29@2x'', ''app-icon-29@3x'', ''app-icon-20@2x'',
        ''app-icon-20@3x'', ''app-icon-16'']"
  by (simp add: IOS_ICON_SIZES_def with_suffix_def)

lemma variant_names:
  "map (\<lambda>e. with_suffix (snd (snd (snd e))) suffix) IOS_ICON_SIZES =
     map (\<lambda>stem. stem @ suffix @ ''.png'')
       [''app-icon-1024'', ''app-icon-512'', ''app-icon-256'', ''app-icon-128'',
        ''app-icon-64@2x'', ''app-icon-60@2x'', ''app-icon-60@3x'', ''app-icon-40@2x'',
        ''app-icon-40@3x'', ''app-icon-29@2x'', ''app-icon-29@3x'', ''app-icon-20@2x'',
        ''app-icon-20@3x'', ''app-icon-16'']"
proof (cases "suffix = []")
  case True
  then show ?thesis using plain_names by simp
next
  case False
  then show ?thesis by (rule suffixed_names)
qed

lemma variant_paths:
  "map (variant_path out suffix) IOS_ICON_SIZES
     = map (\<lambda>stem. dir_prefix out @ stem @ suffix @ ''.png'') icon_stems"
proof -
  have "map (variant_path out suffix) IOS_ICON_SIZES
          = map (path_join out) (map (\<lambda>e. with_suffix (snd (snd (snd e))) suffix) IOS_ICON_SIZES)"
    by (simp add: variant_path_def comp_def)
  also have "\<dots> = map (path_join out) (map (\<lambda>stem. stem @ suffix @ ''.png'') icon_stems)"
    by (simp only: variant_names icon_stems_def)
  also have "\<dots> = map (\<lambda>stem. dir_prefix out @ stem @ suffix @ ''.png'') icon_stems"
    by (simp add: icon_stems_def path_join_prefix)
  finally show ?thesis .
qed

lemma variant_paths_distinct: "distinct (map (variant_path out suffix) IOS_ICON_SIZES)"
proof -
  have "distinct icon_stems" by (simp add: icon_stems_def)
  moreover have "inj_on (\<lambda>stem. dir_prefix out @ stem @ suffix @ ''.png'') (set icon_stems)"
    by (rule inj_onI) simp
  ultimately show ?thesis by (simp add: variant_paths distinct_map)
qed

lemma variant_path_not_dir:
  assumes "e \<in> set IOS_ICON_SIZES"
  shows "variant_path out suffix e \<noteq> out"
proof -
  have "variant_path out suffix e \<in> set (map (variant_path out suffix) IOS_ICON_SIZES)"
    using assms by simp
  then obtain stem where "variant_path out suffix e = dir_prefix out @ stem @ suffix @ ''.png''"
    unfolding variant_paths by auto
  then have "length (variant_path out suffix e) > length out"
    by (simp add: dir_prefix_def)
  then show ?thesis by auto
qed

lemma generate_variants_run:
  assumes master: "fs input_path = Some (File b (Some master))"
    and size: "(width master = 1024 \<and> height master = 1024)
               \<or> response = Some ''y'' \<or> response = Some ''Y''"
    and out: "\<forall>n c. fs output_dir \<noteq> Some (File n c)"
    and free: "\<forall>e \<in> set IOS_ICON_SIZES. \<not> path_isdir fs (variant_path output_dir suffix e)"
  shows "\<exists>fs'. generate_variants enc fs input_path output_dir suffix quality response
               = (fs', Inr (map (variant_path output_dir suffix) IOS_ICON_SIZES))
           \<and> (\<forall>e \<in> set IOS_ICON_SIZES.
                 \<exists>bytes img. fs' (variant_path output_dir suffix e) = Some (File bytes (Some img))
                   \<and> width img = fst e \<and> height img = fst e)
           \<and> (\<forall>p. p \<notin> variant_path output_dir suffix ` set IOS_ICON_SIZES \<and> p \<noteq> output_dir
                 \<longrightarrow> fs' p = fs p)"
proof -
  obtain fs1 where mk: "makedirs fs output_dir = Inr fs1"
    and fs1: "\<forall>p. p \<noteq> output_dir \<longrightarrow> fs1 p = fs p"
    using out by (cases "fs output_dir"; cases "the (fs output_dir)") (auto simp: makedirs_def)
  have "\<forall>e \<in> set IOS_ICON_SIZES. \<not> path_isdir fs1 (variant_path output_dir suffix e)"
    using free fs1 variant_path_not_dir by (simp add: path_isdir_def)
  then obtain fs' where
    r: "write_variants enc fs1 master output_dir suffix IOS_ICON_SIZES
          = (fs', Inr (map (variant_path output_dir suffix) IOS_ICON_SIZES))"
    and w: "\<forall>e \<in> set IOS_ICON_SIZES. fs' (variant_path output_dir suffix e)
              = Some (written enc (resize master (fst e, fst e)))"
    and o: "\<forall>p. p \<notin> variant_path output_dir suffix ` set IOS_ICON_SIZES \<longrightarrow> fs' p = fs1 p"
    using write_variants_ok [OF _ variant_paths_distinct, of fs1 output_dir suffix enc master]
    by blast
  have "generate_variants enc fs input_path output_dir suffix quality response
          = (fs', Inr (map (variant_path output_dir suffix) IOS_ICON_SIZES))"
    using master size mk r
    by (auto simp: generate_variants_def path_exists_def image_open_def)
  moreover have "\<exists>bytes img. fs' (variant_path output_dir suffix e) = Some (File bytes (Some img))
                   \<and> width img = fst e \<and> height img = fst e"
    if "e \<in> set IOS_ICON_SIZES" for e
    using w that by (simp add: written_def resize_def)
  moreover have "\<forall>p. p \<notin> variant_path output_dir suffix ` set IOS_ICON_SIZES \<and> p \<noteq> output_dir
                   \<longrightarrow> fs' p = fs p"
    using o fs1 by auto
  ultimately show ?thesis by blast
qed

lemma icon_file_names:
  "map icon_file_name ICON_SIZES =
     [''AppIcon-16x16.png'', ''AppIcon-29x29.png'', ''AppIcon-32x32.png'', ''AppIcon-40x40.png'',
      ''AppIcon-58x58.png'', ''AppIcon-60x60.png'', ''AppIcon-76x76.png'', ''AppIcon-80x80.png'',
      ''AppIcon-87x87.png'', ''AppIcon-120x120.png'', ''AppIcon-152x152.png'',
      ''AppIcon-167x167.png'', ''AppIcon-180x180.png'', ''AppIcon-1024x1024.png'']"
  by code_simp

lemma flatten_master_size:
  "\<exists>m. flatten_master master = Inr m \<and> width m = width master \<and> height m = height master"
  by (simp add: flatten_master_def paste_def image_new_def convert_def last_band_def Let_def)

lemma save_icon_sizes_ok:
  assumes "\<forall>s \<in> set szs. \<not> path_isdir fs (icon_file_path out s)"
    and "distinct (map (icon_file_path out) szs)"
    and "width m = 1024" "height m = 1024"
  shows "\<exists>fs'. save_icon_sizes enc fs m out szs k = (fs', Inr (k + length szs))
           \<and> (\<forall>s \<in> set szs. \<exists>bytes img. fs' (icon_file_path out s) = Some (File bytes (Some img))
                  \<and> width img = s \<and> height img = s)
           \<and> (\<forall>p. p \<notin> icon_file_path out ` set szs \<longrightarrow> fs' p = fs p)"
  using assms(1,2)
proof (induction szs arbitrary: fs k)
  case Nil
  then show ?case by simp
next
  case (Cons s szs)
  let ?p = "icon_file_path out s"
  let ?img = "if s = 1024 then m else resize m (s, s)"
  let ?fs1 = "fs(?p \<mapsto> written enc ?img)"
  have nd: "\<not> path_isdir fs ?p" using Cons.prems(1) by simp
  have fresh: "?p \<notin> icon_file_path out ` set szs" using Cons.prems(2) by simp
  have "\<forall>s' \<in> set szs. \<not> path_isdir ?fs1 (icon_file_path out s')"
    using Cons.prems(1) fresh by (auto simp: path_isdir_def written_def)
  moreover have "distinct (map (icon_file_path out) szs)" using Cons.prems(2) by simp
  ultimately obtain fs' where
    r: "save_icon_sizes enc ?fs1 m out szs (k + 1) = (fs', Inr (k + 1 + length szs))"
    and w: "\<forall>s' \<in> set szs. \<exists>bytes img.
              fs' (icon_file_path out s') = Some (File bytes (Some img))
              \<and> width img = s' \<and> height img = s'"
    and o: "\<forall>p. p \<notin> icon_file_path out ` set szs \<longrightarrow> fs' p = ?fs1 p"
    using Cons.IH [of ?fs1 "k + 1"] by blast
  have "save_icon_sizes enc fs m out (s # szs) k = (fs', Inr (k + length (s # szs)))"
    using save_png_ok [OF nd, of enc] r
    by (cases "s = 1024") (simp_all add: Let_def icon_file_path_def)
  moreover have "\<exists>bytes img. fs' ?p = Some (File bytes (Some img))
                   \<and> width img = s \<and> height img = s"
    using o fresh assms(3,4) by (simp add: written_def resize_def)
  moreover have "\<forall>q. q \<notin> icon_file_path out ` set (s # szs) \<longrightarrow> fs' q = fs q"
    using o by auto
  ultimately show ?case using w by auto
qed

lemma icon_file_paths:
  "map (icon_file_path out) ICON_SIZES = map (\<lambda>n. dir_prefix out @ n) (map icon_file_name ICON_SIZES)"
proof -
  have "path_join out n = dir_prefix out @ n" if "n \<in> set (map icon_file_name ICON_SIZES)" for n
    using that unfolding icon_file_names by (auto simp: path_join_prefix)
  then show ?thesis by (simp add: icon_file_path_def)
qed

lemma icon_file_paths_distinct: "distinct (map (icon_file_path out) ICON_SIZES)"
proof -
  have "distinct (map icon_file_name ICON_SIZES)" unfolding icon_file_names by simp
  moreover have "inj_on (\<lambda>n. dir_prefix out @ n) (set (map icon_file_name ICON_SIZES))"
    by (rule inj_onI) simp
  ultimately show ?thesis unfolding icon_file_paths by (simp only: distinct_map) 
qed

lemma icon_file_path_not_dir:
  assumes "s \<in> set ICON_SIZES"
  shows "icon_file_path out s \<noteq> out"
proof -
  have "icon_file_path out s \<in> set (map (icon_file_path out) ICON_SIZES)" using assms by simp
  then obtain n where "icon_file_path out s = dir_prefix out @ n"
    and "n \<in> set (map icon_file_name ICON_SIZES)"
    unfolding icon_file_paths by auto
  then have "length (icon_file_path out s) > length out"
    unfolding icon_file_names by (auto simp: dir_prefix_def)
  then show ?thesis by auto
qed

lemma generate_icon_variants_sizes:
  assumes master: "fs master_path = Some (File b (Some master))"
    and size: "width master = 1024" "height master = 1024"
    and out: "\<forall>n c. fs output_dir \<noteq> Some (File n c)"
    and free: "\<forall>s \<in> set ICON_SIZES. \<not> path_isdir fs (icon_file_path output_dir s)"
  shows "\<exists>fs'. generate_icon_variants enc fs master_path output_dir response
               = (fs', Inr (length ICON_SIZES))
           \<and> (\<forall>s \<in> set ICON_SIZES.
                 \<exists>bytes img. fs' (icon_file_path output_dir s) = Some (File bytes (Some img))
                   \<and> width img = s \<and> height img = s)"
proof -
  obtain fs1 where mk: "makedirs fs output_dir = Inr fs1"
    and fs1: "\<forall>p. p \<noteq> output_dir \<longrightarrow> fs1 p = fs p"
    using out by (cases "fs output_dir"; cases "the (fs output_dir)") (auto simp: makedirs_def)
  have "master_path \<noteq> output_dir" using master out by auto
  then have op: "image_open fs1 master_path = Inr master"
    using fs1 master by (simp add: image_open_def)
  obtain m where fl: "flatten_master master = Inr m" and m: "width m = 1024" "height m = 1024"
    using flatten_master_size [of master] size by auto
  have "\<forall>s \<in> set ICON_SIZES. \<not> path_isdir fs1 (icon_file_path output_dir s)"
    using free fs1 icon_file_path_not_dir by (simp add: path_isdir_def)
  then obtain fs' where
    r: "save_icon_sizes enc fs1 m output_dir ICON_SIZES 0 = (fs', Inr (0 + length ICON_SIZES))"
    and w: "\<forall>s \<in> set ICON_SIZES. \<exists>bytes img.
              fs' (icon_file_path output_dir s) = Some (File bytes (Some img))
              \<and> width img = s \<and> height img = s"
    using save_icon_sizes_ok [OF _ icon_file_paths_distinct m, of fs1 output_dir enc 0]
    by blast
  have "generate_icon_variants enc fs master_path output_dir response
          = (fs', Inr (length ICON_SIZES))"
    using master size mk op fl r
    by (simp add: generate_icon_variants_def path_exists_def)
  then show ?thesis using w by blast
qed

lemma manifest_entry_total:
  "e \<in> set IOS_ICON_SIZES \<Longrightarrow>
   manifest_entry (fst e) (fst (snd e)) (fst (snd (snd e))) filename \<noteq> None"
  by (auto simp: IOS_ICON_SIZES_def manifest_entry_def)

lemma fs_master_free:
  "\<forall>e \<in> set IOS_ICON_SIZES. \<not> path_isdir fs_master (variant_path ''out'' [] e)"
  "\<forall>s \<in> set ICON_SIZES. \<not> path_isdir fs_master (icon_file_path ''out'' s)"
  "\<not> path_isfile fs_master ''out''"
  "fs_master ''master.png'' = Some (File 200000 (Some icon_ok))"
  by (auto simp: fs_master_def path_isdir_def path_isfile_def)

lemma example_paths:
  "variant_path ''out'' [] (16, 16, 1, ''app-icon-16.png'') = ''out/app-icon-16.png''
   \<and> icon_file_path ''out'' 167 = ''out/AppIcon-167x167.png''
   \<and> (16, 16, 1, ''app-icon-16.png'') \<in> set IOS_ICON_SIZES
   \<and> 167 \<in> set ICON_SIZES"
  by code_simp

text \<open>
  Claim C5. From a decodable master of 1024 by 1024 pixels, with an output directory that
  is not a file and no directory in the way of an output file, \<open>generate_variants\<close> returns
  the paths of all rows of its size table and leaves at each of them an image of exactly
  S by S pixels, S being the row's export size; and the earlier \<open>generate_icon_variants\<close>
  does the same for every size S of its own table.
\<close>

theorem icon_variants_exact_sizes:
  assumes "fs input_path = Some (File b (Some master))"
    and "width master = 1024" and "height master = 1024"
    and "\<not> path_isfile fs output_dir"
  shows
    "((\<forall>e \<in> set IOS_ICON_SIZES. \<not> path_isdir fs (variant_path output_dir suffix e)) \<longrightarrow>
        snd (generate_variants enc fs input_path output_dir suffix quality response)
          = Inr (map (variant_path output_dir suffix) IOS_ICON_SIZES)
        \<and> (\<forall>e \<in> set IOS_ICON_SIZES.
              image_size_at
                (fst (generate_variants enc fs input_path output_dir suffix quality response))
                (variant_path output_dir suffix e) = Some (fst e, fst e)))
     \<and> ((\<forall>s \<in> set ICON_SIZES. \<not> path_isdir fs (icon_file_path output_dir s)) \<longrightarrow>
        snd (generate_icon_variants enc fs input_path output_dir response)
          = Inr (length ICON_SIZES)
        \<and> (\<forall>s \<in> set ICON_SIZES.
              image_size_at (fst (generate_icon_variants enc fs input_path output_dir response))
                (icon_file_path output_dir s) = Some (s, s)))"
proof -
  have out: "\<forall>n c. fs output_dir \<noteq> Some (File n c)"
    using assms(4) by (auto simp: path_isfile_def)
  have sz: "(width master = 1024 \<and> height master = 1024)
            \<or> response = Some ''y'' \<or> response = Some ''Y''"
    using assms(2,3) by simp
  show ?thesis
  proof (intro conjI impI)
    assume free: "\<forall>e \<in> set IOS_ICON_SIZES. \<not> path_isdir fs (variant_path output_dir suffix e)"
    obtain fs' where
      r: "generate_variants enc fs input_path output_dir suffix quality response
            = (fs', Inr (map (variant_path output_dir suffix) IOS_ICON_SIZES))"
      and w: "\<forall>e \<in> set IOS_ICON_SIZES.
                \<exists>bytes img. fs' (variant_path output_dir suffix e) = Some (File bytes (Some img))
                  \<and> width img = fst e \<and> height img = fst e"
      using generate_variants_run [OF assms(1) sz out free] by blast
    show "snd (generate_variants enc fs input_path output_dir suffix quality response)
            = Inr (map (variant_path output_dir suffix) IOS_ICON_SIZES)"
      using r by simp
    show "\<forall>e \<in> set IOS_ICON_SIZES.
            image_size_at
              (fst (generate_variants enc fs input_path output_dir suffix quality response))
              (variant_path output_dir suffix e) = Some (fst e, fst e)"
      using r w by (auto simp: image_size_at_def)
  next
    assume free: "\<forall>s \<in> set ICON_SIZES. \<not> path_isdir fs (icon_file_path output_dir s)"
    obtain fs' where
      r: "generate_icon_variants enc fs input_path output_dir response
            = (fs', Inr (length ICON_SIZES))"
      and w: "\<forall>s \<in> set ICON_SIZES.
                \<exists>bytes img. fs' (icon_file_path output_dir s) = Some (File bytes (Some img))
                  \<and> width img = s \<and> height img = s"
      using generate_icon_variants_sizes [OF assms(1,2,3) out free] by blast
    show "snd (generate_icon_variants enc fs input_path output_dir response)
            = Inr (length ICON_SIZES)"
      using r by simp
    show "\<forall>s \<in> set ICON_SIZES.
            image_size_at (fst (generate_icon_variants enc fs input_path output_dir response))
              (icon_file_path output_dir s) = Some (s, s)"
      using r w by (auto simp: image_size_at_def)
  qed
qed

theorem icon_variants_exact_sizes_witness:
  "snd (generate_variants (\<lambda>i. 1000) fs_master ''master.png'' ''out'' [] 95 None)
     = Inr (map (variant_path ''out'' []) IOS_ICON_SIZES)
   \<and> image_size_at
        (fst (generate_variants (\<lambda>i. 1000) fs_master ''master.png'' ''out'' [] 95 None))
        ''out/app-icon-16.png'' = Some (16, 16)
   \<and> snd (generate_icon_variants (\<lambda>i. 1000) fs_master ''master.png'' ''out'' None) = Inr 14
   \<and> image_size_at
        (fst (generate_icon_variants (\<lambda>i. 1000) fs_master ''master.png'' ''out'' None))
        ''out/AppIcon-167x167.png'' = Some (167, 167)"
proof -
  have i: "width icon_ok = 1024" "height icon_ok = 1024" by (simp_all add: icon_ok_def)
  have l: "length ICON_SIZES = 14" by (simp add: ICON_SIZES_def)
  show ?thesis
    using icon_variants_exact_sizes [OF fs_master_free(4) i fs_master_free(3),
        of "[]" "\<lambda>i. 1000" 95 None]
      fs_master_free(1,2) example_paths l
    by (metis fst_conv)
qed

lemma validate_icon_files_missing:
  assumes "\<forall>f \<in> set names. \<not> path_exists fs (path_join out f)"
  shows "validate_icon_files fs out names v = (v \<and> names = [], map MissingIcon names)"
  using assms
  by (induction names arbitrary: v) (simp_all add: validate_icon_file_def Let_def)

lemma dark_paths:
  "variant_path ''out'' ''-dark'' ` set IOS_ICON_SIZES
     = set (map (\<lambda>stem. ''out/'' @ stem @ ''-dark.png'') icon_stems)"
proof -
  have "variant_path ''out'' ''-dark'' ` set IOS_ICON_SIZES
          = set (map (variant_path ''out'' ''-dark'') IOS_ICON_SIZES)" by simp
  also have "\<dots> = set (map (\<lambda>stem. ''out/'' @ stem @ ''-dark.png'') icon_stems)"
    unfolding variant_paths by (simp add: dir_prefix_def)
  finally show ?thesis .
qed

lemma plain_paths_missing:
  assumes "\<forall>p. p \<notin> variant_path ''out'' ''-dark'' ` set IOS_ICON_SIZES \<and> p \<noteq> ''out''
             \<longrightarrow> fs' p = fs_dark p"
  shows "\<forall>f \<in> set (map (\<lambda>f. snd (snd (snd f))) IOS_ICON_SIZES).
           \<not> path_exists fs' (path_join ''out'' f)"
proof
  fix f assume "f \<in> set (map (\<lambda>f. snd (snd (snd f))) IOS_ICON_SIZES)"
  then have f: "f \<in> set (map (\<lambda>stem. stem @ ''.png'') icon_stems)"
    by (auto simp: IOS_ICON_SIZES_def icon_stems_def)
  then have "path_join ''out'' f \<notin> variant_path ''out'' ''-dark'' ` set IOS_ICON_SIZES"
    and "path_join ''out'' f \<noteq> ''out''" and "fs_dark (path_join ''out'' f) = None"
    unfolding dark_paths by (auto simp: icon_stems_def path_join_def fs_dark_def)
  then show "\<not> path_exists fs' (path_join ''out'' f)"
    using assms by (simp add: path_exists_def)
qed

lemma main_exit_ignores_validate:
  "fst (snd (icon_variants_main enc json_bytes fs (args\<lparr>arg_validate := v\<rparr>) response))
     = fst (snd (icon_variants_main enc json_bytes fs args response))
   \<and> fst (icon_variants_main enc json_bytes fs (args\<lparr>arg_validate := v\<rparr>) response)
     = fst (icon_variants_main enc json_bytes fs args response)"
  by (simp add: icon_variants_main_def split: option.splits prod.splits sum.splits error.splits)

text \<open>
  Claim C3, on the code. The exit status of the generator is the same with and without
  the validation toggle. At the run
  \<open>--input app-icon-dark.png --output out --suffix=-dark --validate\<close> on a fresh output
  directory (\<open>args_dark\<close> is what the argument parser returns for it; the suffix needs
  the \<open>=\<close> form, since a separate argument \<open>-dark\<close> is refused as an option),
  \<open>validate_icons\<close> looks for the unsuffixed file names, finds none of them, prints a
  failure for each and returns False, and the process exits with status 0.
\<close>

theorem icon_variants_main_ignores_validation:
  "fst (snd (icon_variants_main enc json_bytes fs (args\<lparr>arg_validate := v\<rparr>) response))
     = fst (snd (icon_variants_main enc json_bytes fs args response))
   \<and> fst (snd (icon_variants_main (\<lambda>i. 1000) (\<lambda>j. 100) fs_dark args_dark None)) = 0
   \<and> \<not> fst (validate_icons
              (fst (icon_variants_main (\<lambda>i. 1000) (\<lambda>j. 100) fs_dark args_dark None)) ''out'')
   \<and> snd (snd (icon_variants_main (\<lambda>i. 1000) (\<lambda>j. 100) fs_dark args_dark None))
       = map MissingIcon (map (\<lambda>f. snd (snd (snd f))) IOS_ICON_SIZES) @ [SomeIconsFailed]"
proof -
  have m: "fs_dark ''app-icon-dark.png'' = Some (File 300000 (Some icon_ok))"
    and s: "(width icon_ok = 1024 \<and> height icon_ok = 1024)
            \<or> None = Some ''y'' \<or> None = Some ''Y''"
    and o: "\<forall>n c. fs_dark ''out'' \<noteq> Some (File n c)"
    and f: "\<forall>e \<in> set IOS_ICON_SIZES. \<not> path_isdir fs_dark (variant_path ''out'' ''-dark'' e)"
    by (auto simp: fs_dark_def icon_ok_def path_isdir_def)
  obtain fs' where
    r: "generate_variants (\<lambda>i. 1000) fs_dark ''app-icon-dark.png'' ''out'' ''-dark'' 95 None
          = (fs', Inr (map (variant_path ''out'' ''-dark'') IOS_ICON_SIZES))"
    and u: "\<forall>p. p \<notin> variant_path ''out'' ''-dark'' ` set IOS_ICON_SIZES \<and> p \<noteq> ''out''
              \<longrightarrow> fs' p = fs_dark p"
    using generate_variants_run [OF m s o f, of "\<lambda>i. 1000" 95] by blast
  have v: "validate_icons fs' ''out''
             = (False, map MissingIcon (map (\<lambda>f. snd (snd (snd f))) IOS_ICON_SIZES)
                       @ [SomeIconsFailed])"
    using validate_icon_files_missing [OF plain_paths_missing [OF u], of True]
    by (simp add: validate_icons_def IOS_ICON_SIZES_def)
  have "icon_variants_main (\<lambda>i. 1000) (\<lambda>j. 100) fs_dark args_dark None
          = (fs', 0, snd (validate_icons fs' ''out''))"
    using r by (simp add: icon_variants_main_def args_dark_def)
  then show ?thesis using v by (simp add: main_exit_ignores_validate)
qed

section \<open>Properties of the screenshot post-processor\<close>

lemma add_caption_returns:
  "\<exists>r. add_caption helvetica textbbox img text device_name = Inr r
       \<and> width r = width img \<and> height r = height img"
  by (simp add: add_caption_def alpha_composite_def convert_def image_new_def
      draw_rectangle_def draw_text_def Let_def)

text \<open>
  Claim C8. For every input image, caption text and device name, \<open>add_caption\<close> returns
  an image whose width and height are those of the input image.
\<close>

theorem add_caption_size:
  "\<exists>r. add_caption helvetica textbbox img text device_name = Inr r
       \<and> width r = width img \<and> height r = height img"
  by (rule add_caption_returns)

subsection \<open>Input and output paths never coincide\<close>

lemma digit_not_slash: "k < 10 \<Longrightarrow> ''0123456789'' ! k \<noteq> CHR ''/''"
proof -
  assume "k < 10"
  then have "''0123456789'' ! k \<in> set ''0123456789''" by (intro nth_mem) simp
  then show ?thesis by auto
qed

lemma str_nat_no_slash: "CHR ''/'' \<notin> set (str_nat n)"
proof (induction n rule: str_nat.induct)
  case (1 n)
  show ?case
  proof (cases "n < 10")
    case True
    then show ?thesis using digit_not_slash [of n] by (simp add: str_nat.simps [of n])
  next
    case False
    then show ?thesis
      using 1 digit_not_slash [of "n mod 10"] by (simp add: str_nat.simps [of n])
  qed
qed

lemma str_nat_digits:
  "str_nat (Suc 0) = ''1''" "str_nat 2 = ''2''" "str_nat 3 = ''3''"
  "str_nat 4 = ''4''" "str_nat 5 = ''5''" "str_nat 6 = ''6''"
  by (simp_all add: str_nat.simps)

lemma str_nat_digit: "n < 10 \<Longrightarrow> str_nat n = [''0123456789'' ! n]"
  by (simp add: str_nat.simps [of n])

lemma basename_join:
  assumes "CHR ''/'' \<notin> set x"
  shows "basename (path_join d x) = x"
proof -
  have j: "path_join d x = dir_prefix d @ x"
    using assms by (intro path_join_prefix) (auto dest: slash_free_hd)
  have "takeWhile (\<lambda>c. c \<noteq> CHR ''/'') (rev x @ rev (dir_prefix d)) = rev x"
  proof (cases "dir_prefix d = []")
    case True
    then show ?thesis using assms by (auto simp: takeWhile_eq_all_conv)
  next
    case False
    have "dir_prefix d = [] \<or> last (dir_prefix d) = CHR ''/''"
      by (simp add: dir_prefix_def)
    then have "last (dir_prefix d) = CHR ''/''" using False by simp
    then have "hd (rev (dir_prefix d)) = CHR ''/''" using False by (simp add: hd_rev)
    then obtain r where "rev (dir_prefix d) = CHR ''/'' # r"
      using False by (cases "rev (dir_prefix d)") auto
    then show ?thesis using assms by (simp add: takeWhile_append)
  qed
  then show ?thesis by (simp add: basename_def j)
qed

lemma input_files_no_slash: "c \<in> set (input_files i) \<Longrightarrow> CHR ''/'' \<notin> set c"
  using str_nat_no_slash [of i] by (auto simp: input_files_def)

lemma output_filename_no_slash:
  "i \<in> set [1, 2, 3, 4, 5, 6] \<Longrightarrow>
   CHR ''/'' \<notin> set (output_filename ex i (the (map_of TITLES i)))"
  using str_nat_no_slash [of i] str_nat_no_slash [of "fst ex"] str_nat_no_slash [of "snd ex"]
  by (auto simp: output_filename_def TITLES_def)

lemma names_differ:
  assumes "i \<in> set [1, 2, 3, 4, 5, 6]" "j \<in> set [1, 2, 3, 4, 5, 6]" "c \<in> set (input_files j)"
  shows "c \<noteq> output_filename ex i (the (map_of TITLES i))"
proof -
  have "j < 10" using assms(2) by auto
  then have j: "str_nat j = [''0123456789'' ! j]" by (rule str_nat_digit)
  show ?thesis
    using assms(1,3)
    by (auto simp: input_files_def output_filename_def TITLES_def j str_nat_digits)
qed

lemma outputs_differ:
  assumes "i \<in> set [1, 2, 3, 4, 5, 6]" "j \<in> set [1, 2, 3, 4, 5, 6]" "i \<noteq> j"
  shows "output_filename ex i (the (map_of TITLES i)) \<noteq> output_filename ex j (the (map_of TITLES j))"
  using assms
  by (auto simp: output_filename_def TITLES_def str_nat_digits)

lemma candidate_not_output:
  assumes "i \<in> set [1, 2, 3, 4, 5, 6]" "j \<in> set [1, 2, 3, 4, 5, 6]" "c \<in> set (input_files j)"
  shows "path_join input_dir c \<noteq> shot_output_path output_dir specs i"
proof
  assume "path_join input_dir c = shot_output_path output_dir specs i"
  then have "basename (path_join input_dir c) = basename (shot_output_path output_dir specs i)"
    by simp
  then have "c = output_filename (export_size specs) i (the (map_of TITLES i))"
    using basename_join [OF input_files_no_slash [OF assms(3)]]
      basename_join [OF output_filename_no_slash [OF assms(1)]]
    by (simp add: shot_output_path_def)
  then show False using names_differ [OF assms] by simp
qed

lemma output_paths_differ:
  assumes "i \<in> set [1, 2, 3, 4, 5, 6]" "j \<in> set [1, 2, 3, 4, 5, 6]" "i \<noteq> j"
  shows "shot_output_path output_dir specs i \<noteq> shot_output_path output_dir specs j"
proof
  assume "shot_output_path output_dir specs i = shot_output_path output_dir specs j"
  then have "basename (shot_output_path output_dir specs i)
              = basename (shot_output_path output_dir specs j)" by simp
  then show False
    using basename_join [OF output_filename_no_slash [OF assms(1)]]
      basename_join [OF output_filename_no_slash [OF assms(2)]] outputs_differ [OF assms]
    by (simp add: shot_output_path_def)
qed

lemma output_path_not_dir:
  assumes "i \<in> set [1, 2, 3, 4, 5, 6]"
  shows "shot_output_path output_dir specs i \<noteq> output_dir"
proof -
  let ?n = "output_filename (export_size specs) i (the (map_of TITLES i))"
  have "shot_output_path output_dir specs i = dir_prefix output_dir @ ?n"
    unfolding shot_output_path_def
    using slash_free_hd [OF output_filename_no_slash [OF assms, of "export_size specs"]]
    by (intro path_join_prefix)
  moreover have "?n \<noteq> []" by (simp add: output_filename_def)
  ultimately have "length (shot_output_path output_dir specs i) > length output_dir"
    by (simp add: dir_prefix_def)
  then show ?thesis by auto
qed

subsection \<open>The batch\<close>

lemma process_screenshot_ok:
  assumes "image_open fs p = Inr img" "\<not> path_isdir fs q"
  shows "\<exists>r out. process_screenshot helvetica textbbox enc fs p q caption device
               = (fs(q \<mapsto> written enc r), Inr out)
           \<and> width r = width img \<and> height r = height img"
proof (cases "caption \<noteq> None \<and> caption \<noteq> Some []")
  case True
  obtain r where "add_caption helvetica textbbox img (the caption) device = Inr r"
    and "width r = width img" "height r = height img"
    using add_caption_returns by blast
  then show ?thesis
    using assms True save_png_ok [OF assms(2), of enc r]
    by (intro exI [of _ r]) (simp add: process_screenshot_def)
next
  case False
  then show ?thesis
    using assms save_png_ok [OF assms(2), of enc img]
    by (intro exI [of _ img]) (auto simp: process_screenshot_def)
qed

lemma image_size_at_open:
  "image_size_at fs p \<noteq> None \<Longrightarrow>
   \<exists>img. image_open fs p = Inr img \<and> image_size_at fs p = Some (width img, height img)"
  by (auto simp: image_size_at_def image_open_def split: option.splits node.splits)

lemma find_input_cong:
  assumes "\<forall>c \<in> set (input_files i). fs' (path_join input_dir c) = fs (path_join input_dir c)"
  shows "find_input fs' input_dir i = find_input fs input_dir i"
proof -
  have "\<forall>p \<in> set (map (path_join input_dir) (input_files i)).
          path_exists fs' p = path_exists fs p"
    using assms by (auto simp: path_exists_def)
  then show ?thesis unfolding find_input_def by (intro find_cong) auto
qed

lemma find_input_candidate:
  "find_input fs input_dir i = Some p \<Longrightarrow> \<exists>c \<in> set (input_files i). p = path_join input_dir c"
  by (auto simp: find_input_def find_Some_iff)

lemma batch_loop_ok:
  assumes "set idx \<subseteq> set [1, 2, 3, 4, 5, 6]" and "distinct idx"
    and "\<forall>i \<in> set idx. \<forall>p. find_input fs input_dir i = Some p \<longrightarrow> image_size_at fs p \<noteq> None"
    and "\<forall>i \<in> set idx. \<not> path_isdir fs (shot_output_path output_dir specs i)"
  shows "\<exists>fs' out. batch_loop helvetica textbbox enc fs input_dir output_dir specs add_captions idx
                   = (fs', Inr out)
           \<and> (\<forall>i \<in> set idx. \<forall>p. find_input fs input_dir i = Some p \<longrightarrow>
                  image_size_at fs' (shot_output_path output_dir specs i) = image_size_at fs p)
           \<and> (\<forall>q. q \<notin> shot_output_path output_dir specs ` set idx \<longrightarrow> fs' q = fs q)"
  using assms
proof (induction idx arbitrary: fs)
  case Nil
  then show ?case by simp
next
  case (Cons i idx)
  have i: "i \<in> set [1, 2, 3, 4, 5, 6]" and idx: "set idx \<subseteq> set [1, 2, 3, 4, 5, 6]"
    using Cons.prems(1) by auto
  have dist: "distinct idx" using Cons.prems(2) by simp
  have fresh: "shot_output_path output_dir specs i \<notin> shot_output_path output_dir specs ` set idx"
  proof
    assume "shot_output_path output_dir specs i \<in> shot_output_path output_dir specs ` set idx"
    then obtain j where "j \<in> set idx"
      and "shot_output_path output_dir specs i = shot_output_path output_dir specs j" by auto
    moreover have "i \<noteq> j" using Cons.prems(2) \<open>j \<in> set idx\<close> by auto
    moreover have "j \<in> set [1, 2, 3, 4, 5, 6]" using idx \<open>j \<in> set idx\<close> by blast
    ultimately show False using output_paths_differ [OF i, of j output_dir specs] by simp
  qed
  have p3': "\<forall>j \<in> set idx. \<forall>p. find_input fs input_dir j = Some p \<longrightarrow>
               image_size_at fs p \<noteq> None"
    using Cons.prems(3) by simp
  have p4': "\<forall>j \<in> set idx. \<not> path_isdir fs (shot_output_path output_dir specs j)"
    using Cons.prems(4) by simp
  show ?case
  proof (cases "find_input fs input_dir i")
    case None
    obtain fs' out where
      r: "batch_loop helvetica textbbox enc fs input_dir output_dir specs add_captions idx
            = (fs', Inr out)"
      and w: "\<forall>j \<in> set idx. \<forall>p. find_input fs input_dir j = Some p \<longrightarrow>
                image_size_at fs' (shot_output_path output_dir specs j) = image_size_at fs p"
      and o: "\<forall>q. q \<notin> shot_output_path output_dir specs ` set idx \<longrightarrow> fs' q = fs q"
      using Cons.IH [OF idx dist p3' p4'] by (elim exE conjE) (rule that, assumption+)
    have "batch_loop helvetica textbbox enc fs input_dir output_dir specs add_captions (i # idx)
            = (fs', Inr (ScreenshotNotFound i input_dir # out))"
      using None r by simp
    moreover have "\<forall>j \<in> set (i # idx). \<forall>p. find_input fs input_dir j = Some p \<longrightarrow>
                 image_size_at fs' (shot_output_path output_dir specs j) = image_size_at fs p"
      using w None by simp
    moreover have "\<forall>q. q \<notin> shot_output_path output_dir specs ` set (i # idx) \<longrightarrow> fs' q = fs q"
      using o by simp
    ultimately show ?thesis by blast
  next
    case (Some p)
    let ?q = "shot_output_path output_dir specs i"
    obtain img where op: "image_open fs p = Inr img"
      and sz: "image_size_at fs p = Some (width img, height img)"
      using image_size_at_open [of fs p] Cons.prems(3) Some by auto
    obtain title where t: "map_of TITLES i = Some title"
      using i by (auto simp: TITLES_def)
    obtain caption where c: "(if add_captions then map_option Some (map_of CAPTIONS i)
                              else Some None) = Some caption"
      using i by (cases add_captions) (auto simp: CAPTIONS_def)
    have q: "path_join output_dir (output_filename (export_size specs) i title) = ?q"
      using t by (simp add: shot_output_path_def)
    have nd: "\<not> path_isdir fs ?q" using Cons.prems(4) by simp
    obtain r out1 where
      ps: "process_screenshot helvetica textbbox enc fs p ?q caption (dev_name specs)
             = (fs(?q \<mapsto> written enc r), Inr out1)"
      and rs: "width r = width img" "height r = height img"
      using process_screenshot_ok [OF op nd] by blast
    let ?fs1 = "fs(?q \<mapsto> written enc r)"
    have same: "?fs1 (path_join input_dir c) = fs (path_join input_dir c)"
      if "j \<in> set [1, 2, 3, 4, 5, 6]" "c \<in> set (input_files j)" for j c
      using candidate_not_output [OF i that, of input_dir output_dir specs] by simp
    have fi: "find_input ?fs1 input_dir j = find_input fs input_dir j"
      if "j \<in> set [1, 2, 3, 4, 5, 6]" for j
      using same [OF that] by (intro find_input_cong) simp
    have isz: "image_size_at ?fs1 p' = image_size_at fs p'"
      if jj: "j \<in> set [1, 2, 3, 4, 5, 6]" and ff: "find_input fs input_dir j = Some p'" for j p'
    proof -
      obtain c where "c \<in> set (input_files j)" "p' = path_join input_dir c"
        using find_input_candidate [OF ff] by blast
      then show ?thesis using same [OF jj] by (simp add: image_size_at_def)
    qed
    have p3: "\<forall>j \<in> set idx. \<forall>p'. find_input ?fs1 input_dir j = Some p' \<longrightarrow>
                image_size_at ?fs1 p' \<noteq> None"
    proof (intro ballI allI impI)
      fix j p' assume jj: "j \<in> set idx" and ff: "find_input ?fs1 input_dir j = Some p'"
      have j: "j \<in> set [1, 2, 3, 4, 5, 6]" using idx jj by blast
      have f0: "find_input fs input_dir j = Some p'" using ff fi [OF j] by simp
      have "image_size_at fs p' \<noteq> None" using Cons.prems(3) jj f0 by simp
      then show "image_size_at ?fs1 p' \<noteq> None" using isz [OF j f0] by simp
    qed
    have p4: "\<forall>j \<in> set idx. \<not> path_isdir ?fs1 (shot_output_path output_dir specs j)"
      using Cons.prems(4) by (auto simp: path_isdir_def written_def)
    obtain fs' out where
      r: "batch_loop helvetica textbbox enc ?fs1 input_dir output_dir specs add_captions idx
            = (fs', Inr out)"
      and w: "\<forall>j \<in> set idx. \<forall>p'. find_input ?fs1 input_dir j = Some p' \<longrightarrow>
                image_size_at fs' (shot_output_path output_dir specs j) = image_size_at ?fs1 p'"
      and o: "\<forall>q. q \<notin> shot_output_path output_dir specs ` set idx \<longrightarrow> fs' q = ?fs1 q"
      using Cons.IH [OF idx dist p3 p4] by (elim exE conjE) (rule that, assumption+)
    have run: "batch_loop helvetica textbbox enc fs input_dir output_dir specs add_captions
                 (i # idx) = (fs', Inr (out1 @ out))"
      using Some t c ps r by (simp add: q Let_def)
    have here: "image_size_at fs' ?q = image_size_at fs p"
      using o fresh rs sz by (simp add: image_size_at_def written_def)
    have rest: "image_size_at fs' (shot_output_path output_dir specs j) = image_size_at fs p'"
      if jj: "j \<in> set idx" and ff: "find_input fs input_dir j = Some p'" for j p'
    proof -
      have j: "j \<in> set [1, 2, 3, 4, 5, 6]" using idx jj by blast
      show ?thesis using w jj ff fi [OF j] isz [OF j ff] by simp
    qed
    have frame: "\<forall>q. q \<notin> shot_output_path output_dir specs ` set (i # idx) \<longrightarrow> fs' q = fs q"
      using o by auto
    have all: "\<forall>j \<in> set (i # idx). \<forall>p'. find_input fs input_dir j = Some p' \<longrightarrow>
                 image_size_at fs' (shot_output_path output_dir specs j) = image_size_at fs p'"
    proof (intro ballI allI impI)
      fix j p' assume jj: "j \<in> set (i # idx)" and ff: "find_input fs input_dir j = Some p'"
      show "image_size_at fs' (shot_output_path output_dir specs j) = image_size_at fs p'"
      proof (cases "j = i")
        case True
        then show ?thesis using here ff Some by simp
      next
        case False
        then show ?thesis using rest [of j p'] jj ff by simp
      qed
    qed
    show ?thesis using run all frame by blast
  qed
qed

lemma batch_process_run:
  assumes dev: "map_of DEVICE_SPECS device_type = Some specs"
    and out: "\<not> path_isfile fs output_dir"
    and apart: "\<forall>i \<in> set [1, 2, 3, 4, 5, 6]. \<forall>c \<in> set (input_files i).
                  path_join input_dir c \<noteq> output_dir"
    and readable: "\<forall>i \<in> set [1, 2, 3, 4, 5, 6]. \<forall>p. find_input fs input_dir i = Some p \<longrightarrow>
                     image_size_at fs p \<noteq> None"
    and free: "\<forall>i \<in> set [1, 2, 3, 4, 5, 6].
                 \<not> path_isdir fs (shot_output_path output_dir specs i)"
  shows "(\<exists>lines. snd (batch_process helvetica textbbox enc fs input_dir output_dir device_type
                        add_captions add_frames) = Inr lines)
         \<and> (\<forall>i \<in> set [1, 2, 3, 4, 5, 6]. \<forall>p. find_input fs input_dir i = Some p \<longrightarrow>
               image_size_at
                 (fst (batch_process helvetica textbbox enc fs input_dir output_dir device_type
                         add_captions add_frames))
                 (shot_output_path output_dir specs i) = image_size_at fs p)"
proof -
  obtain fs1 where mk: "makedirs fs output_dir = Inr fs1"
    and fs1: "\<forall>p. p \<noteq> output_dir \<longrightarrow> fs1 p = fs p"
    using out
    by (cases "fs output_dir"; cases "the (fs output_dir)")
      (auto simp: makedirs_def path_isfile_def)
  have same: "fs1 (path_join input_dir c) = fs (path_join input_dir c)"
    if "i \<in> set [1, 2, 3, 4, 5, 6]" "c \<in> set (input_files i)" for i c
    using apart fs1 that by blast
  have fi: "find_input fs1 input_dir i = find_input fs input_dir i"
    if "i \<in> set [1, 2, 3, 4, 5, 6]" for i
    using same [OF that] by (intro find_input_cong) simp
  have isz: "image_size_at fs1 p = image_size_at fs p"
    if ii: "i \<in> set [1, 2, 3, 4, 5, 6]" and ff: "find_input fs input_dir i = Some p" for i p
  proof -
    obtain c where "c \<in> set (input_files i)" "p = path_join input_dir c"
      using find_input_candidate [OF ff] by blast
    then show ?thesis using same [OF ii] by (simp add: image_size_at_def)
  qed
  have p3: "\<forall>i \<in> set [1, 2, 3, 4, 5, 6]. \<forall>p. find_input fs1 input_dir i = Some p \<longrightarrow>
              image_size_at fs1 p \<noteq> None"
  proof (intro ballI allI impI)
    fix i p assume ii: "i \<in> set [1, 2, 3, 4, 5, 6]" and ff: "find_input fs1 input_dir i = Some p"
    have f0: "find_input fs input_dir i = Some p" using ff fi [OF ii] by simp
    have "image_size_at fs p \<noteq> None" using readable ii f0 by blast
    then show "image_size_at fs1 p \<noteq> None" using isz [OF ii f0] by simp
  qed
  have p4: "\<forall>i \<in> set [1, 2, 3, 4, 5, 6].
              \<not> path_isdir fs1 (shot_output_path output_dir specs i)"
    using free fs1 output_path_not_dir by (simp add: path_isdir_def)
  have sub: "set [1, 2, 3, 4, 5, 6] \<subseteq> set [1, 2, 3, 4, 5, 6 :: nat]"
    and dist: "distinct [1, 2, 3, 4, 5, 6 :: nat]" by simp_all
  obtain fs' lines where
    r: "batch_loop helvetica textbbox enc fs1 input_dir output_dir specs add_captions
          [1, 2, 3, 4, 5, 6] = (fs', Inr lines)"
    and w: "\<forall>i \<in> set [1, 2, 3, 4, 5, 6]. \<forall>p. find_input fs1 input_dir i = Some p \<longrightarrow>
              image_size_at fs' (shot_output_path output_dir specs i) = image_size_at fs1 p"
    using batch_loop_ok [OF sub dist p3 p4, of helvetica textbbox enc add_captions]
    by (elim exE conjE) (rule that, assumption+)
  have run: "batch_process helvetica textbbox enc fs input_dir output_dir device_type
               add_captions add_frames = (fs', Inr lines)"
    using dev mk r by (simp add: batch_process_def)
  have "image_size_at fs' (shot_output_path output_dir specs i) = image_size_at fs p"
    if ii: "i \<in> set [1, 2, 3, 4, 5, 6]" and ff: "find_input fs input_dir i = Some p" for i p
  proof -
    have "find_input fs1 input_dir i = Some p" using ff fi [OF ii] by simp
    then have "image_size_at fs' (shot_output_path output_dir specs i) = image_size_at fs1 p"
      using w ii by blast
    then show ?thesis using isz [OF ii ff] by simp
  qed
  then have "\<forall>i \<in> set [1, 2, 3, 4, 5, 6]. \<forall>p. find_input fs input_dir i = Some p \<longrightarrow>
               image_size_at fs' (shot_output_path output_dir specs i) = image_size_at fs p"
    by blast
  then show ?thesis unfolding run fst_conv snd_conv by blast
qed

lemma example_output_paths:
  "map (shot_output_path ''out/iphone_15'' (the (map_of DEVICE_SPECS ''iphone_15'')))
     [1, 2, 3, 4, 5, 6]
   = [''out/iphone_15/1_FORGET_LESS_1179x2556.png'', ''out/iphone_15/2_FSRS_V5_1179x2556.png'',
      ''out/iphone_15/3_LIQUID_GLASS_1179x2556.png'',
      ''out/iphone_15/4_STUDY_MODES_1179x2556.png'',
      ''out/iphone_15/5_SMART_SCHEDULING_1179x2556.png'',
      ''out/iphone_15/6_START_LEARNING_1179x2556.png'']
   \<and> map (shot_output_path ''out/ipad'' (the (map_of DEVICE_SPECS ''ipad''))) [1, 2, 3, 4, 5, 6]
   = [''out/ipad/1_FORGET_LESS_1640x2360.png'', ''out/ipad/2_FSRS_V5_1640x2360.png'',
      ''out/ipad/3_LIQUID_GLASS_1640x2360.png'', ''out/ipad/4_STUDY_MODES_1640x2360.png'',
      ''out/ipad/5_SMART_SCHEDULING_1640x2360.png'',
      ''out/ipad/6_START_LEARNING_1640x2360.png'']"
  by code_simp

lemma example_inputs:
  "map (\<lambda>i. map (path_join ''raw/iphone_15'') (input_files i)) [1, 2, 3, 4, 5, 6]
   = [[''raw/iphone_15/1.png'', ''raw/iphone_15/1_raw.png'', ''raw/iphone_15/screenshot_1.png''],
      [''raw/iphone_15/2.png'', ''raw/iphone_15/2_raw.png'', ''raw/iphone_15/screenshot_2.png''],
      [''raw/iphone_15/3.png'', ''raw/iphone_15/3_raw.png'', ''raw/iphone_15/screenshot_3.png''],
      [''raw/iphone_15/4.png'', ''raw/iphone_15/4_raw.png'', ''raw/iphone_15/screenshot_4.png''],
      [''raw/iphone_15/5.png'', ''raw/iphone_15/5_raw.png'', ''raw/iphone_15/screenshot_5.png''],
      [''raw/iphone_15/6.png'', ''raw/iphone_15/6_raw.png'', ''raw/iphone_15/screenshot_6.png'']]
   \<and> map (\<lambda>i. map (path_join ''raw/ipad'') (input_files i)) [1, 2, 3, 4, 5, 6]
   = [[''raw/ipad/1.png'', ''raw/ipad/1_raw.png'', ''raw/ipad/screenshot_1.png''],
      [''raw/ipad/2.png'', ''raw/ipad/2_raw.png'', ''raw/ipad/screenshot_2.png''],
      [''raw/ipad/3.png'', ''raw/ipad/3_raw.png'', ''raw/ipad/screenshot_3.png''],
      [''raw/ipad/4.png'', ''raw/ipad/4_raw.png'', ''raw/ipad/screenshot_4.png''],
      [''raw/ipad/5.png'', ''raw/ipad/5_raw.png'', ''raw/ipad/screenshot_5.png''],
      [''raw/ipad/6.png'', ''raw/ipad/6_raw.png'', ''raw/ipad/screenshot_6.png'']]"
  by code_simp

lemma example_devices:
  "map_of DEVICE_SPECS ''iphone_15''
     = Some \<lparr>dev_name = ''iPhone 15'', screen_size = (393, 852), export_size = (1179, 2556),
             dev_scale = 3\<rparr>"
  "map_of DEVICE_SPECS ''ipad''
     = Some \<lparr>dev_name = ''iPad (10th Gen)'', screen_size = (820, 1180),
             export_size = (1640, 2360), dev_scale = 2\<rparr>"
  by (simp_all add: DEVICE_SPECS_def)

lemma fs_raw_facts:
  "\<not> path_isfile fs_raw ''out/iphone_15''"
  "\<forall>i \<in> set [1, 2, 3, 4, 5, 6]. \<forall>c \<in> set (input_files i).
     path_join ''raw/iphone_15'' c \<noteq> ''out/iphone_15''"
  "\<forall>i \<in> set [1, 2, 3, 4, 5, 6]. \<forall>p. find_input fs_raw ''raw/iphone_15'' i = Some p \<longrightarrow>
     image_size_at fs_raw p \<noteq> None"
  "\<forall>i \<in> set [1, 2, 3, 4, 5, 6].
     \<not> path_isdir fs_raw (shot_output_path ''out/iphone_15''
          (the (map_of DEVICE_SPECS ''iphone_15'')) i)"
  "find_input fs_raw ''raw/iphone_15'' 1 = Some ''raw/iphone_15/1.png''"
  "image_size_at fs_raw ''raw/iphone_15/1.png'' = Some (750, 1334)"
  using example_inputs
  by (auto simp: fs_raw_def path_isfile_def path_isdir_def find_input_def path_exists_def
      image_size_at_def shot_se_def)

lemma fs_raw_ipad_facts:
  "\<not> path_isfile fs_raw_ipad ''out/ipad''"
  "\<forall>i \<in> set [1, 2, 3, 4, 5, 6]. \<forall>c \<in> set (input_files i).
     path_join ''raw/ipad'' c \<noteq> ''out/ipad''"
  "\<forall>i \<in> set [1, 2, 3, 4, 5, 6]. \<forall>p. find_input fs_raw_ipad ''raw/ipad'' i = Some p \<longrightarrow>
     image_size_at fs_raw_ipad p \<noteq> None"
  "\<forall>i \<in> set [1, 2, 3, 4, 5, 6].
     \<not> path_isdir fs_raw_ipad (shot_output_path ''out/ipad''
          (the (map_of DEVICE_SPECS ''ipad'')) i)"
  "find_input fs_raw_ipad ''raw/ipad'' 2 = Some ''raw/ipad/2_raw.png''"
  "image_size_at fs_raw_ipad ''raw/ipad/2_raw.png'' = Some (1640, 2360)"
  using example_inputs
  by (auto simp: fs_raw_ipad_def path_isfile_def path_isdir_def find_input_def path_exists_def
      image_size_at_def shot_ipad_def shot_se_def)

text \<open>
  Claim C2, as stated, fails: for the device \<open>iphone_15\<close>, whose export resolution is
  1179 by 2556, an input screenshot of 750 by 1334 is written out with 750 by 1334 pixels,
  under a file name that says 1179x2556.
\<close>

theorem batch_process_counterexample:
  "image_size_at
     (fst (batch_process True bbox0 (\<lambda>i. 1000) fs_raw ''raw/iphone_15'' ''out/iphone_15''
             ''iphone_15'' True False))
     ''out/iphone_15/1_FORGET_LESS_1179x2556.png'' = Some (750, 1334)
   \<and> map_option export_size (map_of DEVICE_SPECS ''iphone_15'') = Some (1179, 2556)"
proof -
  have o: "shot_output_path ''out/iphone_15'' (the (map_of DEVICE_SPECS ''iphone_15'')) 1
             = ''out/iphone_15/1_FORGET_LESS_1179x2556.png''"
    using example_output_paths by simp
  have i: "(1::nat) \<in> set [1, 2, 3, 4, 5, 6]" by simp
  show ?thesis
    using batch_process_run [OF example_devices(1), of fs_raw "''out/iphone_15''"
        "''raw/iphone_15''" True bbox0 "\<lambda>i. 1000" True False] fs_raw_facts o i
    by (simp add: example_devices(1))
qed

text \<open>
  Claim C2, amended. For a known device, an output directory that is not a file and is
  none of the input paths, decodable inputs and no directory in the way of an output file,
  \<open>batch_process\<close> returns, and the output file written for each input screenshot found has
  the pixel dimensions of that input screenshot.
\<close>

theorem batch_process_keeps_input_size:
  assumes "map_of DEVICE_SPECS device_type = Some specs"
    and "\<not> path_isfile fs output_dir"
    and "\<forall>i \<in> set [1, 2, 3, 4, 5, 6]. \<forall>c \<in> set (input_files i).
           path_join input_dir c \<noteq> output_dir"
    and "\<forall>i \<in> set [1, 2, 3, 4, 5, 6]. \<forall>p. find_input fs input_dir i = Some p \<longrightarrow>
           image_size_at fs p \<noteq> None"
    and "\<forall>i \<in> set [1, 2, 3, 4, 5, 6].
           \<not> path_isdir fs (shot_output_path output_dir specs i)"
  shows "(\<exists>lines. snd (batch_process helvetica textbbox enc fs input_dir output_dir device_type
                        add_captions add_frames) = Inr lines)
         \<and> (\<forall>i \<in> set [1, 2, 3, 4, 5, 6]. \<forall>p. find_input fs input_dir i = Some p \<longrightarrow>
               image_size_at
                 (fst (batch_process helvetica textbbox enc fs input_dir output_dir device_type
                         add_captions add_frames))
                 (shot_output_path output_dir specs i) = image_size_at fs p)"
  using assms by (rule batch_process_run)

theorem batch_process_keeps_input_size_witness:
  "(\<exists>lines. snd (batch_process False bbox0 (\<lambda>i. 1000) fs_raw_ipad ''raw/ipad'' ''out/ipad''
                    ''ipad'' True False) = Inr lines)
   \<and> image_size_at
       (fst (batch_process False bbox0 (\<lambda>i. 1000) fs_raw_ipad ''raw/ipad'' ''out/ipad''
               ''ipad'' True False))
       ''out/ipad/2_FSRS_V5_1640x2360.png'' = Some (1640, 2360)"
proof -
  have o: "shot_output_path ''out/ipad'' (the (map_of DEVICE_SPECS ''ipad'')) 2
             = ''out/ipad/2_FSRS_V5_1640x2360.png''"
    using example_output_paths by simp
  have i: "(2::nat) \<in> set [1, 2, 3, 4, 5, 6]" by simp
  show ?thesis
    using batch_process_keeps_input_size [OF example_devices(2), of fs_raw_ipad "''out/ipad''"
        "''raw/ipad''" False bbox0 "\<lambda>i. 1000" True False] fs_raw_ipad_facts o i
    by (simp add: example_devices(2))
qed

section \<open>Properties of the procedural icon composer\<close>

text \<open>
  The value of every layer on the canvas of 1024 by 1024, and of their composite.
\<close>

lemma floor_values:
  "\<lfloor>4096 / 5 :: rat\<rfloor> = 819" "\<lfloor>1792 / 5 :: rat\<rfloor> = 358"
  "\<lfloor>7371 / 40 :: rat\<rfloor> = 184"
  by (simp_all add: floor_eq_iff)

lemma fluid_L_value:
  "create_fluid_L (1024, 1024)
     (create_gradient_color (1024, 1024) (RGB 99 102 241) (RGB 236 72 153) (RGB 139 92 246))
   = Inr \<lparr>width = 1024, height = 1024, format = None, mode = ''RGBA'',
          pix =
            Composite
              (AlphaComposite (Fill (RGBA 0 0 0 0))
                 (Convert ''RGBA''
                    (Gradient (RGB 99 102 241) (RGB 236 72 153) (RGB 139 92 246))))
              (Fill (RGBA 0 0 0 0))
              (LastBand
                 (DrawPolygon
                    [(373, 256), (393, 306), (453, 1536 / 5), (453, 748), (413, 768),
                     (393, 768), (393, 444), (2918 / 5, 444), (2918 / 5, 384), (393, 306),
                     (373, 256)]
                    (RGBA 255 255 255 255) (Fill (RGBA 0 0 0 0))))\<rparr>"
  by (simp add: create_fluid_L_def create_gradient_color_def alpha_composite_def composite_def
      image_new_def convert_def draw_polygon_def last_band_def Let_def floor_values)

lemma glass_card_value:
  "create_glass_card (1024, 1024) 40 opacity border_opacity
   = \<lparr>width = 1024, height = 1024, format = None, mode = ''RGBA'',
      pix = GaussianBlur 40
              (DrawRoundedRectangle (102, 102) (921, 921) 184
                 (RGBA 255 255 255 (255 * opacity div 100))
                 (RGBA 255 255 255 (255 * border_opacity div 100)) 2
                 (Fill (RGBA 0 0 0 0)))\<rparr>"
  by (simp add: create_glass_card_def image_new_def gaussian_blur_def
      draw_rounded_rectangle_def Let_def floor_values)

lemma noise_value:
  "create_noise_texture 1024 1024 5
   = \<lparr>width = 1024, height = 1024, format = None, mode = ''RGBA'',
      pix = PutAlpha 12 (Convert ''RGBA'' Noise)\<rparr>"
  by (simp add: create_noise_texture_def convert_def putalpha_def Let_def)

lemma icon_layers_value:
  "icon_layers appearance =
     Inr \<lparr>width = 1024, height = 1024, format = None, mode = ''RGBA'',
          pix =
            AlphaComposite
              (AlphaComposite
                 (AlphaComposite
                    (Convert ''RGBA''
                       (Fill (if appearance = ''light'' then RGB 255 255 255 else RGB 0 0 0)))
                    (GaussianBlur 40
                       (DrawRoundedRectangle (102, 102) (921, 921) 184
                          (RGBA 255 255 255 (if appearance = ''light'' then 63 else 76))
                          (RGBA 255 255 255 (if appearance = ''light'' then 102 else 127)) 2
                          (Fill (RGBA 0 0 0 0)))))
                 (Composite
                    (AlphaComposite (Fill (RGBA 0 0 0 0))
                       (Convert ''RGBA''
                          (Gradient (RGB 99 102 241) (RGB 236 72 153) (RGB 139 92 246))))
                    (Fill (RGBA 0 0 0 0))
                    (LastBand
                       (DrawPolygon
                          [(373, 256), (393, 306), (453, 1536 / 5), (453, 748), (413, 768),
                           (393, 768), (393, 444), (2918 / 5, 444), (2918 / 5, 384),
                           (393, 306), (373, 256)]
                          (RGBA 255 255 255 255) (Fill (RGBA 0 0 0 0))))))
              (PutAlpha 12 (Convert ''RGBA'' Noise))\<rparr>"
  by (simp add: icon_layers_def fluid_L_value glass_card_value noise_value
      alpha_composite_def image_new_def convert_def background_colour_def Let_def)

text \<open>
  Claim C9. For the appearance \<open>light\<close> as for any other (\<open>dark\<close>), when no directory
  is in the way of the output file, \<open>create_app_icon\<close> saves and returns an image of 1024
  by 1024 pixels in mode RGB, with no alpha band. Its pixels are the flattening of the
  composited RGBA layers: the layers are, from back to front, the background fill converted
  to RGBA, the blurred rounded rectangle of the glass card, the gradient cut out by the
  polygon of the glyph, and the noise at alpha 12, joined by three \<open>alpha_composite\<close> calls
  in this order; the result is pasted, through its own alpha band, onto a fill of the
  background colour, white for \<open>light\<close> and black otherwise.
\<close>

theorem create_app_icon_opaque:
  "\<not> path_isdir fs output_path \<Longrightarrow>
   \<exists>layers img.
     layers =
       AlphaComposite
         (AlphaComposite
            (AlphaComposite
               (Convert ''RGBA''
                  (Fill (if appearance = ''light'' then RGB 255 255 255 else RGB 0 0 0)))
               (GaussianBlur 40
                  (DrawRoundedRectangle (102, 102) (921, 921) 184
                     (RGBA 255 255 255 (if appearance = ''light'' then 63 else 76))
                     (RGBA 255 255 255 (if appearance = ''light'' then 102 else 127)) 2
                     (Fill (RGBA 0 0 0 0)))))
            (Composite
               (AlphaComposite (Fill (RGBA 0 0 0 0))
                  (Convert ''RGBA''
                     (Gradient (RGB 99 102 241) (RGB 236 72 153) (RGB 139 92 246))))
               (Fill (RGBA 0 0 0 0))
               (LastBand
                  (DrawPolygon
                     [(373, 256), (393, 306), (453, 1536 / 5), (453, 748), (413, 768),
                      (393, 768), (393, 444), (2918 / 5, 444), (2918 / 5, 384),
                      (393, 306), (373, 256)]
                     (RGBA 255 255 255 255) (Fill (RGBA 0 0 0 0))))))
         (PutAlpha 12 (Convert ''RGBA'' Noise))
     \<and> icon_layers appearance =
         Inr \<lparr>width = 1024, height = 1024, format = None, mode = ''RGBA'', pix = layers\<rparr>
     \<and> img =
         \<lparr>width = 1024, height = 1024, format = None, mode = ''RGB'',
          pix = Paste (Fill (if appearance = ''light'' then RGB 255 255 255 else RGB 0 0 0))
                  layers (Some (LastBand layers))\<rparr>
     \<and> create_app_icon enc fs appearance output_path =
         (fs(output_path \<mapsto> File (enc img) (Some (img\<lparr>format := Some ''PNG''\<rparr>))), Inr img)"
proof -
  assume nd: "\<not> path_isdir fs output_path"
  show ?thesis
    using save_png_ok [OF nd, of enc]
    by (simp add: create_app_icon_def icon_layers_value paste_def image_new_def last_band_def
        background_colour_def written_def)
qed

theorem create_app_icon_opaque_witness:
  "image_size_at
     (fst (create_app_icon (\<lambda>i. 400000) Map.empty ''light'' ''app-icon.png''))
     ''app-icon.png'' = Some (1024, 1024)
   \<and> map_sum id (\<lambda>i. (mode i, case pix i of Paste base _ _ \<Rightarrow> Some base | _ \<Rightarrow> None))
       (snd (create_app_icon (\<lambda>i. 400000) Map.empty ''light'' ''app-icon.png''))
     = Inr (''RGB'', Some (Fill (RGB 255 255 255)))
   \<and> image_size_at
       (fst (create_app_icon (\<lambda>i. 400000) Map.empty ''dark'' ''app-icon-dark.png''))
       ''app-icon-dark.png'' = Some (1024, 1024)
   \<and> map_sum id (\<lambda>i. (mode i, case pix i of Paste base _ _ \<Rightarrow> Some base | _ \<Rightarrow> None))
       (snd (create_app_icon (\<lambda>i. 400000) Map.empty ''dark'' ''app-icon-dark.png''))
     = Inr (''RGB'', Some (Fill (RGB 0 0 0)))"
proof -
  have nd: "\<not> path_isdir Map.empty ''app-icon.png''" "\<not> path_isdir Map.empty ''app-icon-dark.png''"
    by (simp_all add: path_isdir_def)
  have l: "\<exists>layers img. layers = L \<and> A layers \<and> img = I layers \<and> c = (F img, Inr img) \<Longrightarrow>
           c = (F (I L), Inr (I L))" for L A I F and c :: "fs \<times> (error + image)"
    by auto
  show ?thesis
    using l [OF create_app_icon_opaque [OF nd(1), of "''light''" "\<lambda>i. 400000"]]
      l [OF create_app_icon_opaque [OF nd(2), of "''dark''" "\<lambda>i. 400000"]]
    by (simp add: image_size_at_def)
qed

end
